theory Spec2Isabelle
  imports Main
begin

section \<open>JavaScript strings, numbers and values\<close>

text \<open>
  Strings are lists of characters with codes below 256. The functions below are the
  JavaScript string operations the lookup tool calls: \<open>join\<close> of arrays, \<open>toLowerCase\<close>,
  \<open>toUpperCase\<close>, \<open>parseInt(s, 10)\<close> and the printing of a Number. The case conversions
  map the letters A to Z and a to z; strings with other letters, and characters with codes
  from 256 (among them further Unicode white space), are outside the model.
\<close>

fun join :: "string \<Rightarrow> string list \<Rightarrow> string" where
  "join sep [] = []"
| "join sep [x] = x"
| "join sep (x # y # ys) = x @ sep @ join sep (y # ys)"

definition upper_letters :: string where
  "upper_letters = ''ABCDEFGHIJKLMNOPQRSTUVWXYZ''"

definition lower_letters :: string where
  "lower_letters = ''abcdefghijklmnopqrstuvwxyz''"

definition digit_chars :: string where
  "digit_chars = ''0123456789''"

definition is_upper :: "char \<Rightarrow> bool" where
  "is_upper c = (c \<in> set upper_letters)"

definition is_digit :: "char \<Rightarrow> bool" where
  "is_digit c = (c \<in> set digit_chars)"

text \<open>The white space that \<open>parseInt\<close> skips, as far as it has a code below 256: tab,
  line feed, vertical tab, form feed, carriage return, space and the no-break space.\<close>

definition is_space :: "char \<Rightarrow> bool" where
  "is_space c =
     (c \<in> set [CHR 0x09, CHR 0x0A, CHR 0x0B, CHR 0x0C, CHR 0x0D, CHR 0x20, CHR 0xA0])"

definition lower_char :: "char \<Rightarrow> char" where
  "lower_char c = (case map_of (zip upper_letters lower_letters) c of Some d \<Rightarrow> d | None \<Rightarrow> c)"

definition upper_char :: "char \<Rightarrow> char" where
  "upper_char c = (case map_of (zip lower_letters upper_letters) c of Some d \<Rightarrow> d | None \<Rightarrow> c)"

definition toLowerCase :: "string \<Rightarrow> string" where
  "toLowerCase s = map lower_char s"

definition digit_val :: "char \<Rightarrow> nat" where
  "digit_val c = (case map_of (zip digit_chars [0, 1, 2, 3, 4, 5, 6, 7, 8, 9]) c of
                    Some d \<Rightarrow> d | None \<Rightarrow> 0)"

definition digit_char :: "nat \<Rightarrow> char" where
  "digit_char d = digit_chars ! (d mod 10)"

definition digits_val :: "string \<Rightarrow> nat" where
  "digits_val ds = foldl (\<lambda>a c. 10 * a + digit_val c) 0 ds"

text \<open>
  \<open>parseInt(s, 10)\<close>: leading white space is skipped, one sign is read, then the longest
  run of decimal digits; no digit at all gives NaN (\<open>None\<close>). Whatever follows the digits is
  ignored. The result is the integer that the sign and the digits denote. The Number the
  code gets is the double nearest to it: the integer itself when it is a safe integer, and a
  rounded value beyond; \<open>number_text\<close> below prints it.
\<close>

definition parseInt :: "string \<Rightarrow> int option" where
  "parseInt s =
     (let t = dropWhile is_space s;
          neg = (case t of [] \<Rightarrow> False | c # r \<Rightarrow> c = CHR ''-'');
          u = (case t of [] \<Rightarrow> [] | c # r \<Rightarrow> if c = CHR ''-'' \<or> c = CHR ''+'' then r else t);
          ds = takeWhile is_digit u
      in if ds = [] then None
         else Some (if neg then - int (digits_val ds) else int (digits_val ds)))"

function show_nat :: "nat \<Rightarrow> string" where
  "show_nat n = (if n < 10 then [digit_char n] else show_nat (n div 10) @ [digit_char n])"
  by pat_completeness auto
termination
  by (relation "measure (\<lambda>n. n)") auto

declare show_nat.simps [simp del]

definition show_int :: "int \<Rightarrow> string" where
  "show_int i = (if i < 0 then CHR ''-'' # show_nat (nat (- i)) else show_nat (nat i))"

text \<open>
  The text of a Number, as a template literal or \<open>String\<close> prints it. For a safe integer
  (at most \<open>2^53 - 1\<close> in absolute value) it is the decimal numeral. For an integer beyond,
  the Number is the nearest double, printed by the JavaScript runtime with rounded digits,
  in exponent form from \<open>1e21\<close>, or as \<open>Infinity\<close>; this printing is not part of the
  repository and is the parameter \<open>big\<close> of the model, from the integer to the text.
\<close>

definition safe_integer :: "int \<Rightarrow> bool" where
  "safe_integer n = (- 9007199254740991 \<le> n \<and> n \<le> 9007199254740991)"

definition number_text :: "(int \<Rightarrow> string) \<Rightarrow> int \<Rightarrow> string" where
  "number_text big n = (if safe_integer n then show_int n else big n)"

text \<open>
  The values a field of a hit document can hold. \<open>JNum n\<close> is the Number nearest to the
  integer \<open>n\<close>; \<open>JNaN\<close> is NaN; \<open>JOtherNum s\<close> is any other Number, a fraction or an
  infinity, given by the text \<open>s\<close> that \<open>String\<close> prints for it. \<open>JObj\<close> is any nested
  object.
\<close>

datatype jsval =
    JUndefined
  | JNull
  | JBool bool
  | JNum int
  | JNaN
  | JOtherNum string
  | JStr string
  | JArr "jsval list"
  | JObj

text \<open>The test \<open>if (value)\<close>: false, 0, NaN, the empty string, null and undefined are
  falsy; arrays (the empty one included) and objects are truthy.\<close>

fun truthy :: "jsval \<Rightarrow> bool" where
  "truthy JUndefined = False"
| "truthy JNull = False"
| "truthy (JBool b) = b"
| "truthy (JNum n) = (n \<noteq> 0)"
| "truthy JNaN = False"
| "truthy (JOtherNum s) = True"
| "truthy (JStr s) = (s \<noteq> [])"
| "truthy (JArr xs) = True"
| "truthy JObj = True"

text \<open>\<open>String(value)\<close> and \<open>Array.prototype.join\<close>, which renders a null or undefined
  element as the empty string and every other element by \<open>String\<close>.\<close>

fun js_String :: "(int \<Rightarrow> string) \<Rightarrow> jsval \<Rightarrow> string" where
  "js_String big JUndefined = ''undefined''"
| "js_String big JNull = ''null''"
| "js_String big (JBool b) = (if b then ''true'' else ''false'')"
| "js_String big (JNum n) = number_text big n"
| "js_String big JNaN = ''NaN''"
| "js_String big (JOtherNum s) = s"
| "js_String big (JStr s) = s"
| "js_String big (JArr xs) =
     join '','' (map (\<lambda>x. if x = JUndefined \<or> x = JNull then [] else js_String big x) xs)"
| "js_String big JObj = ''[object Object]''"

definition array_join :: "(int \<Rightarrow> string) \<Rightarrow> string \<Rightarrow> jsval list \<Rightarrow> string" where
  "array_join big sep xs =
     join sep (map (\<lambda>x. if x = JUndefined \<or> x = JNull then [] else js_String big x) xs)"

section \<open>Request, configuration and the search backend\<close>

record GetVesselPersonnelInfoRequest =
  name_query :: "string option"
  vessel_query :: "string option"
  email_query :: "string option"

text \<open>\<open>config.typesense\<close>; a missing entry is \<open>None\<close>.\<close>

record typesense_config =
  host :: "string option"
  port :: "int option"
  protocol :: "string option"
  apiKey :: "string option"

record search_params =
  q :: string
  filter_by :: "string option"
  query_by :: "string option"
  per_page :: nat

text \<open>A hit is taken as its \<open>document\<close>, the list of its fields in the order of
  \<open>Object.entries\<close>; a response carries the number \<open>found\<close> and may lack \<open>hits\<close>.\<close>

type_synonym document = "(string \<times> jsval) list"

record search_response =
  found :: nat
  hits :: "document list option"

text \<open>What a search can throw: an Error carrying an \<open>errors\<close> array (its message and
  the rendering of each sub-error), a plain Error (its message), or any other value (its
  \<open>String\<close> rendering).\<close>

datatype search_error =
    AggregateError string "string list"
  | PlainError string
  | OtherThrown string

text \<open>The backend answers one search request and moves to its next state.\<close>

type_synonym 'b backend = "'b \<Rightarrow> search_params \<Rightarrow> (search_error + search_response) \<times> 'b"

datatype event = ClientConstructed | Search search_params

record tool_result =
  content_text :: string
  trace :: "event list"

section \<open>The field schema\<close>

definition vesselInfoFields :: "string list" where
  "vesselInfoFields =
     [''vesselName'', ''groupName'', ''shippalmDoc'', ''isV3'', ''class'', ''imo'', ''doc'', ''fleet'']"

definition emailFields :: "string list" where
  "emailFields =
     [''vesselEmailId'', ''technicalSuperintendentEmailId'', ''procurementExecEmailId'',
      ''marineSuperintendentEmailId'', ''vgEmailId'', ''technicalExecutiveEmailId'',
      ''dcoExecEmailId'', ''pmsExecEmailId'', ''accountsPicEmailId'',
      ''backupTechSuperintendentEmailId'', ''cmsSuperintendentEmailId'',
      ''fleetManagerEmailId'', ''marineManagerEmailId'', ''itPicEmailId'',
      ''manningGroupHeadEmailId'', ''marineExecEmailId'']"

definition personNameFields :: "string list" where
  "personNameFields =
     [''technicalSuperintendent'', ''procurementExec'', ''owner'', ''marineSuperintendent'',
      ''technicalExecutive'', ''dcoExec'', ''pmsExec'', ''fleetManager'', ''accountsPic'',
      ''backupTechSuperintendent'', ''cmsSuperintendent'', ''itPic'', ''manningGroupHead'',
      ''marineExec'', ''marineManager'']"

definition numericFields :: "string list" where
  "numericFields = [''imo'']"

definition boolFields :: "string list" where
  "boolFields = [''isV3'']"

section \<open>Active queries\<close>

definition providedQueries :: "GetVesselPersonnelInfoRequest \<Rightarrow> (string \<times> string option) list" where
  "providedQueries args =
     [(''name'', name_query args), (''vessel'', vessel_query args), (''email'', email_query args)]"

text \<open>The entries whose value is neither undefined nor null, in the order of
  \<open>providedQueries\<close>.\<close>

definition activeQueries :: "GetVesselPersonnelInfoRequest \<Rightarrow> (string \<times> string) list" where
  "activeQueries args =
     foldl (\<lambda>obj (key, v). case v of None \<Rightarrow> obj | Some s \<Rightarrow> obj @ [(key, s)]) []
       (providedQueries args)"

section \<open>Phase 1: the exact filter\<close>

definition searchFields_of :: "string \<Rightarrow> string list" where
  "searchFields_of queryType =
     (if queryType = ''email'' then emailFields
      else if queryType = ''name'' then personNameFields
      else if queryType = ''vessel'' then vesselInfoFields
      else [])"

definition stringFields_of :: "string list \<Rightarrow> string list" where
  "stringFields_of searchFields =
     filter (\<lambda>f. f \<notin> set numericFields \<and> f \<notin> set boolFields) searchFields"

definition numericParts ::
  "(int \<Rightarrow> string) \<Rightarrow> string \<Rightarrow> string \<Rightarrow> string list \<Rightarrow> string list" where
  "numericParts big queryType query filterParts =
     (case parseInt query of
        None \<Rightarrow> filterParts
      | Some numericQuery \<Rightarrow>
          foldl (\<lambda>fp field. if field \<in> set (searchFields_of queryType)
                             then fp @ [field @ '':='' @ number_text big numericQuery] else fp)
            filterParts numericFields)"

definition boolParts :: "string \<Rightarrow> string \<Rightarrow> string list \<Rightarrow> string list" where
  "boolParts queryType query filterParts =
     (if toLowerCase query = ''true'' \<or> toLowerCase query = ''false''
      then foldl (\<lambda>fp field. if field \<in> set (searchFields_of queryType)
                              then fp @ [field @ '':='' @ toLowerCase query] else fp)
             filterParts boolFields
      else filterParts)"

definition stringParts :: "string \<Rightarrow> string \<Rightarrow> string list \<Rightarrow> string list" where
  "stringParts queryType query filterParts =
     foldl (\<lambda>fp field. fp @ [field @ '':=`'' @ query @ ''`''])
       filterParts (stringFields_of (searchFields_of queryType))"

text \<open>The body of the loop over the active queries for one query type and its string
  (the slots are typed as strings, so the test \<open>typeof query === 'string'\<close> holds).\<close>

definition filterParts_of :: "(int \<Rightarrow> string) \<Rightarrow> string \<Rightarrow> string \<Rightarrow> string list" where
  "filterParts_of big queryType query =
     stringParts queryType query
       (if queryType \<noteq> ''email''
        then boolParts queryType query (numericParts big queryType query [])
        else [])"

definition combinedFilterParts_of ::
  "(int \<Rightarrow> string) \<Rightarrow> (string \<times> string) list \<Rightarrow> string list" where
  "combinedFilterParts_of big aq =
     foldl (\<lambda>combined (queryType, query).
              let filterParts = filterParts_of big queryType query
              in if length filterParts > 0
                 then combined @ [''('' @ join '' || '' filterParts @ '')'']
                 else combined)
       [] aq"

definition filterQuery_of :: "(int \<Rightarrow> string) \<Rightarrow> (string \<times> string) list \<Rightarrow> string" where
  "filterQuery_of big aq = join '' && '' (combinedFilterParts_of big aq)"

definition exactParams ::
  "(int \<Rightarrow> string) \<Rightarrow> nat \<Rightarrow> (string \<times> string) list \<Rightarrow> search_params" where
  "exactParams big pp aq =
     \<lparr>q = ''*'', filter_by = Some (filterQuery_of big aq), query_by = None, per_page = pp\<rparr>"

section \<open>Phase 2: the fuzzy query\<close>

definition fuzzyQ_of :: "(string \<times> string) list \<Rightarrow> string" where
  "fuzzyQ_of aq = join '' '' (map snd aq)"

text \<open>\<open>Set.add\<close> on an insertion-ordered set.\<close>

definition set_add :: "string list \<Rightarrow> string \<Rightarrow> string list" where
  "set_add s f = (if f \<in> set s then s else s @ [f])"

text \<open>The test \<open>if (activeQueries.name)\<close>: the key is present and its string is not
  empty.\<close>

definition slot_truthy :: "(string \<times> string) list \<Rightarrow> string \<Rightarrow> bool" where
  "slot_truthy aq key = (case map_of aq key of None \<Rightarrow> False | Some s \<Rightarrow> s \<noteq> [])"

definition fuzzyQueryByFields :: "(string \<times> string) list \<Rightarrow> string list" where
  "fuzzyQueryByFields aq =
     (let s0 = [];
          s1 = (if slot_truthy aq ''name'' then foldl set_add s0 personNameFields else s0);
          s2 = (if slot_truthy aq ''vessel'' then foldl set_add s1 vesselInfoFields else s1);
          s3 = (if slot_truthy aq ''email'' then foldl set_add s2 emailFields else s2)
      in s3)"

definition fuzzyStringFields_of :: "(string \<times> string) list \<Rightarrow> string list" where
  "fuzzyStringFields_of aq =
     filter (\<lambda>f. f \<notin> set numericFields \<and> f \<notin> set boolFields) (fuzzyQueryByFields aq)"

definition fuzzyParams :: "(string \<times> string) list \<Rightarrow> search_params" where
  "fuzzyParams aq =
     \<lparr>q = fuzzyQ_of aq, filter_by = None,
      query_by = Some (join '','' (fuzzyStringFields_of aq)), per_page = 10\<rparr>"

section \<open>The result formatter\<close>

text \<open>\<open>key.replace(/([A-Z])/g, ' $1').replace(/^./, c => c.toUpperCase())\<close>: a space
  goes before every capital letter, then the first character, unless it is a line
  terminator, is capitalised.\<close>

definition displayKey :: "string \<Rightarrow> string" where
  "displayKey key =
     (case concat (map (\<lambda>c. if is_upper c then [CHR '' '', c] else [c]) key) of
        [] \<Rightarrow> []
      | c # r \<Rightarrow> if c = CHR 0x0A \<or> c = CHR 0x0D then c # r else upper_char c # r)"

definition displayValue :: "(int \<Rightarrow> string) \<Rightarrow> jsval \<Rightarrow> string" where
  "displayValue big v =
     (case v of JArr xs \<Rightarrow> array_join big '', '' xs | _ \<Rightarrow> js_String big v)"

definition format_doc :: "(int \<Rightarrow> string) \<Rightarrow> string \<Rightarrow> document \<Rightarrow> string" where
  "format_doc big responseText doc =
     foldl (\<lambda>txt (key, v). if truthy v
                            then txt @ displayKey key @ '': '' @ displayValue big v @ ''\<newline>''
                            else txt)
       responseText doc"

text \<open>\<open>hits.forEach((hit, i) => ...)\<close>, with the index \<open>i\<close> of the next hit.\<close>

fun format_hits :: "(int \<Rightarrow> string) \<Rightarrow> string \<Rightarrow> nat \<Rightarrow> document list \<Rightarrow> string" where
  "format_hits big responseText i [] = responseText"
| "format_hits big responseText i (doc # rest) =
     format_hits big
       (format_doc big (responseText @ ''--- Result '' @ show_nat (i + 1) @ '' ---\<newline>'') doc
          @ ''\<newline>'')
       (i + 1) rest"

definition responseText_of :: "(int \<Rightarrow> string) \<Rightarrow> nat \<Rightarrow> document list \<Rightarrow> string" where
  "responseText_of big fnd hs =
     format_hits big
       (''Found '' @ number_text big (int fnd) @ '' results. Showing top '' @ show_nat (length hs)
          @ '':\<newline>\<newline>'')
       0 hs"

section \<open>The tool\<close>

definition errorMessage :: "search_error \<Rightarrow> string" where
  "errorMessage e =
     (case e of
        AggregateError msg subs \<Rightarrow>
          ''An aggregate error occurred: '' @ msg @ ''. Individual errors: '' @ join ''; '' subs
      | PlainError msg \<Rightarrow> ''An error occurred: '' @ msg
      | OtherThrown s \<Rightarrow> ''An error occurred: '' @ s)"

text \<open>\<open>!config.typesense.host || !config.typesense.port || ...\<close>: a credential is
  missing when it is absent, the empty string or the port 0.\<close>

definition credentials_missing :: "typesense_config \<Rightarrow> bool" where
  "credentials_missing cfg =
     ((case host cfg of None \<Rightarrow> True | Some h \<Rightarrow> h = [])
      \<or> (case port cfg of None \<Rightarrow> True | Some p \<Rightarrow> p = 0)
      \<or> (case protocol cfg of None \<Rightarrow> True | Some p \<Rightarrow> p = [])
      \<or> (case apiKey cfg of None \<Rightarrow> True | Some k \<Rightarrow> k = []))"

definition hits_or_empty :: "search_response \<Rightarrow> document list" where
  "hits_or_empty r = (case hits r of None \<Rightarrow> [] | Some hs \<Rightarrow> hs)"

text \<open>The end of the \<open>try\<close> block, reached with the last response and its hits.\<close>

definition report :: "(int \<Rightarrow> string) \<Rightarrow> search_response \<Rightarrow> document list \<Rightarrow> string" where
  "report big searchResults hs =
     (if length hs = 0 then ''No results found for your query.''
      else responseText_of big (found searchResults) hs)"

text \<open>The body shared by \<open>get_vessel_personnel_info\<close> and \<open>fleetVesselLookup\<close>, which
  differ in the page size of the exact search only. The result carries the text of the one
  content block and, in \<open>trace\<close>, the construction of the client and the searches sent,
  in order. With all four credentials present the construction of the client is taken to
  succeed; an exception of a search is caught and becomes the error text.\<close>

definition vessel_lookup ::
  "(int \<Rightarrow> string) \<Rightarrow> nat \<Rightarrow> typesense_config \<Rightarrow> 'b backend \<Rightarrow> 'b \<Rightarrow> GetVesselPersonnelInfoRequest \<Rightarrow> tool_result" where
  "vessel_lookup big pp cfg backend b args =
     (let aq = activeQueries args in
      if length aq = 0
      then \<lparr>content_text =
              ''Error: Please provide at least one of name_query, vessel_query, or email_query.'',
            trace = []\<rparr>
      else if credentials_missing cfg
      then \<lparr>content_text = ''Error: Typesense credentials not configured.'', trace = []\<rparr>
      else
        (case backend b (exactParams big pp aq) of
           (Inl e, b1) \<Rightarrow>
             \<lparr>content_text = errorMessage e,
              trace = [ClientConstructed, Search (exactParams big pp aq)]\<rparr>
         | (Inr searchResults, b1) \<Rightarrow>
             if length (hits_or_empty searchResults) = 0
             then
               (case backend b1 (fuzzyParams aq) of
                  (Inl e, b2) \<Rightarrow>
                    \<lparr>content_text = errorMessage e,
                     trace = [ClientConstructed, Search (exactParams big pp aq),
                              Search (fuzzyParams aq)]\<rparr>
                | (Inr fuzzyResults, b2) \<Rightarrow>
                    \<lparr>content_text = report big fuzzyResults (hits_or_empty fuzzyResults),
                     trace = [ClientConstructed, Search (exactParams big pp aq),
                              Search (fuzzyParams aq)]\<rparr>)
             else
               \<lparr>content_text = report big searchResults (hits_or_empty searchResults),
                trace = [ClientConstructed, Search (exactParams big pp aq)]\<rparr>))"

definition get_vessel_personnel_info ::
  "(int \<Rightarrow> string) \<Rightarrow> typesense_config \<Rightarrow> 'b backend \<Rightarrow> 'b \<Rightarrow> GetVesselPersonnelInfoRequest \<Rightarrow> tool_result" where
  "get_vessel_personnel_info big = vessel_lookup big 250"



section \<open>The clauses of a group and their reading by the search service\<close>










section \<open>Closed forms used in the proofs\<close>

text \<open>The text of one string clause, as the template literal of the string-field loop
  writes it.\<close>

definition string_clause :: "string \<Rightarrow> string \<Rightarrow> string" where
  "string_clause query field = field @ '':=`'' @ query @ ''`''"

text \<open>The clauses the integer and boolean coercions put in front of the string clauses;
  \<open>filterParts_eq\<close> below proves that this is what the loop body computes.\<close>

definition coerced_clauses :: "(int \<Rightarrow> string) \<Rightarrow> string \<Rightarrow> string \<Rightarrow> string list" where
  "coerced_clauses big t query =
     (if t = ''vessel''
      then (case parseInt query of None \<Rightarrow> [] | Some n \<Rightarrow> [''imo:='' @ number_text big n])
           @ (if toLowerCase query = ''true'' \<or> toLowerCase query = ''false''
              then [''isV3:='' @ toLowerCase query] else [])
      else [])"

text \<open>One parenthesised group, as the phase-1 loop pushes it.\<close>

definition group_text :: "(int \<Rightarrow> string) \<Rightarrow> string \<times> string \<Rightarrow> string" where
  "group_text big tq = ''('' @ join '' || '' (filterParts_of big (fst tq) (snd tq)) @ '')''"

text \<open>A backend for the examples: its state is the list of answers it will still give,
  one per request; with none left the search throws.\<close>

definition canned_backend :: "(search_error + search_response) list backend" where
  "canned_backend answers params =
     (case answers of
        [] \<Rightarrow> (Inl (PlainError ''no answer left''), [])
      | a # rest \<Rightarrow> (a, rest))"

text \<open>A printing of the numbers beyond the safe integers for the examples, which hold
  safe integers only.\<close>

definition example_big :: "int \<Rightarrow> string" where
  "example_big n = ''Infinity''"

section \<open>Properties of the filter construction\<close>

lemma foldl_snoc_map: "foldl (\<lambda>acc x. acc @ [g x]) acc xs = acc @ map g xs"
  by (induction xs arbitrary: acc) simp_all

lemma stringFields_email: "stringFields_of (searchFields_of ''email'') = emailFields"
  by (simp add: stringFields_of_def searchFields_of_def emailFields_def numericFields_def
      boolFields_def)

lemma stringFields_name: "stringFields_of (searchFields_of ''name'') = personNameFields"
  by (simp add: stringFields_of_def searchFields_of_def personNameFields_def numericFields_def
      boolFields_def)

lemma stringFields_vessel:
  "stringFields_of (searchFields_of ''vessel'') =
     [''vesselName'', ''groupName'', ''shippalmDoc'', ''class'', ''doc'', ''fleet'']"
  by (simp add: stringFields_of_def searchFields_of_def vesselInfoFields_def numericFields_def
      boolFields_def)

lemma stringFields_other:
  "t \<noteq> ''email'' \<Longrightarrow> t \<noteq> ''name'' \<Longrightarrow> t \<noteq> ''vessel'' \<Longrightarrow>
     stringFields_of (searchFields_of t) = []"
  by (simp add: stringFields_of_def searchFields_of_def)

lemma stringParts_eq:
  "stringParts queryType query fp =
     fp @ map (string_clause query) (stringFields_of (searchFields_of queryType))"
  by (simp add: stringParts_def foldl_snoc_map string_clause_def)

lemma imo_in_searchFields: "''imo'' \<in> set (searchFields_of t) \<longleftrightarrow> t = ''vessel''"
  by (simp add: searchFields_of_def emailFields_def personNameFields_def vesselInfoFields_def)

lemma isV3_in_searchFields: "''isV3'' \<in> set (searchFields_of t) \<longleftrightarrow> t = ''vessel''"
  by (simp add: searchFields_of_def emailFields_def personNameFields_def vesselInfoFields_def)

lemma numericParts_eq:
  "numericParts big t query fp =
     fp @ (case parseInt query of
             None \<Rightarrow> []
           | Some n \<Rightarrow> if t = ''vessel'' then [''imo:='' @ number_text big n] else [])"
  by (simp add: numericParts_def numericFields_def imo_in_searchFields split: option.splits)

lemma boolParts_eq:
  "boolParts t query fp =
     fp @ (if (toLowerCase query = ''true'' \<or> toLowerCase query = ''false'') \<and> t = ''vessel''
           then [''isV3:='' @ toLowerCase query] else [])"
  by (simp add: boolParts_def boolFields_def isV3_in_searchFields)

lemma filterParts_eq:
  "filterParts_of big t query =
     coerced_clauses big t query @ map (string_clause query) (stringFields_of (searchFields_of t))"
  by (simp add: filterParts_of_def stringParts_eq numericParts_eq boolParts_eq coerced_clauses_def
      split: option.splits)

lemma digit_char_in: "digit_char d \<in> set digit_chars"
  unfolding digit_char_def by (rule nth_mem) (simp add: digit_chars_def)

lemma show_nat_digits: "show_nat n \<noteq> [] \<and> set (show_nat n) \<subseteq> set digit_chars"
proof (induction n rule: show_nat.induct)
  case (1 n)
  show ?case
  proof (cases "n < 10")
    case True
    then show ?thesis by (subst (1 2) show_nat.simps) (simp add: digit_char_in)
  next
    case False
    with 1 show ?thesis by (subst (1 2) show_nat.simps) (simp add: digit_char_in)
  qed
qed

lemma show_int_chars: "show_int i \<noteq> [] \<and> set (show_int i) \<subseteq> insert (CHR ''-'') (set digit_chars)"
  using show_nat_digits [of "nat i"] show_nat_digits [of "nat (- i)"]
  by (auto simp: show_int_def)

lemma backtick_not_in_show_int: "CHR 0x60 \<notin> set (show_int i)"
  using show_int_chars [of i] by (auto simp: digit_chars_def)

lemma take6_numeric: "take 6 (''imo:='' @ show_int n) \<noteq> ''imo:=`''"
proof
  assume "take 6 (''imo:='' @ show_int n) = ''imo:=`''"
  then have "take 1 (show_int n) = [CHR 0x60]" by simp
  then have "CHR 0x60 \<in> set (take 1 (show_int n))" by simp
  then have "CHR 0x60 \<in> set (show_int n)" by (rule in_set_takeD)
  with backtick_not_in_show_int show False by blast
qed

lemma string_fields_cases:
  assumes "f \<in> set (stringFields_of (searchFields_of t))"
  shows "f \<in> set emailFields \<or> f \<in> set personNameFields
         \<or> f \<in> set [''vesselName'', ''groupName'', ''shippalmDoc'', ''class'', ''doc'', ''fleet'']"
proof -
  consider "t = ''email''" | "t = ''name''" | "t = ''vessel''"
    | "t \<noteq> ''email''" "t \<noteq> ''name''" "t \<noteq> ''vessel''" by blast
  then show ?thesis
  proof cases
    case 1 with assms show ?thesis by (simp only: stringFields_email) simp
  next
    case 2 with assms show ?thesis by (simp only: stringFields_name) simp
  next
    case 3 with assms show ?thesis by (simp only: stringFields_vessel) simp
  next
    case 4 with assms show ?thesis by (simp add: stringFields_other)
  qed
qed

lemma string_field_start:
  assumes "f \<in> set (stringFields_of (searchFields_of t))"
  shows "2 \<le> length f \<and> take 2 f \<noteq> ''im'' \<and> take 2 f \<noteq> ''is''"
proof -
  have "list_all (\<lambda>f. 2 \<le> length f \<and> take 2 f \<noteq> ''im'' \<and> take 2 f \<noteq> ''is'')
          (emailFields @ personNameFields
           @ [''vesselName'', ''groupName'', ''shippalmDoc'', ''class'', ''doc'', ''fleet''])"
    by (simp add: emailFields_def personNameFields_def)
  with string_fields_cases [OF assms] show ?thesis
    unfolding list_all_iff set_append by blast
qed

lemma string_clause_start:
  assumes "f \<in> set (stringFields_of (searchFields_of t))"
  shows "take 2 (string_clause query f) \<noteq> ''im'' \<and> take 2 (string_clause query f) \<noteq> ''is''"
  using string_field_start [OF assms] by (simp add: string_clause_def)

lemma string_clause_not_imo:
  assumes "f \<in> set (stringFields_of (searchFields_of t))"
  shows "take 6 (string_clause query f) \<noteq> ''imo:=`''"
proof
  assume "take 6 (string_clause query f) = ''imo:=`''"
  then have "take 2 (take 6 (string_clause query f)) = ''im''" by simp
  then have "take 2 (string_clause query f) = ''im''" by simp
  with string_clause_start [OF assms] show False by blast
qed

lemma string_clause_not_isV3:
  assumes "f \<in> set (stringFields_of (searchFields_of t))"
  shows "string_clause query f \<noteq> ''isV3:='' @ b"
proof
  assume "string_clause query f = ''isV3:='' @ b"
  then have "take 2 (string_clause query f) = ''is''" by simp
  with string_clause_start [OF assms] show False by blast
qed

lemma coerced_not_imo_string:
  assumes "c \<in> set (coerced_clauses big t query)"
    and "\<forall>m. parseInt query = Some m \<longrightarrow> safe_integer m"
  shows "take 6 c \<noteq> ''imo:=`''"
proof (cases "parseInt query")
  case None
  with assms(1) show ?thesis
    by (auto simp: coerced_clauses_def split: if_splits)
next
  case (Some m)
  with assms(2) have "number_text big m = show_int m" by (simp add: number_text_def)
  with Some assms(1) take6_numeric [of m] show ?thesis
    by (auto simp: coerced_clauses_def split: if_splits)
qed

lemma isV3_in_coerced:
  "''isV3:='' @ b \<in> set (coerced_clauses big t query) \<longleftrightarrow>
     (t = ''vessel'' \<and> (toLowerCase query = ''true'' \<or> toLowerCase query = ''false'')
      \<and> b = toLowerCase query)"
  by (auto simp: coerced_clauses_def split: if_splits option.splits)

lemma in_filterParts:
  "c \<in> set (filterParts_of big t query) \<longleftrightarrow>
     c \<in> set (coerced_clauses big t query)
     \<or> (\<exists>f \<in> set (stringFields_of (searchFields_of t)). c = string_clause query f)"
  unfolding filterParts_eq set_append set_map by blast


section \<open>Claims about the exact filter\<close>

text \<open>
  C4. A vessel query that parses as an integer gives the vessel group the numeric clause
  \<open>imo:=n\<close>, where \<open>n\<close> is the text of the parsed Number: its decimal numeral when the
  integer is a safe integer, as for \<open>9876543\<close>. The group of a query type is, in this
  order, that numeric clause if the type is not \<open>email\<close> and has \<open>imo\<close> among its
  fields, the clause \<open>isV3:=b\<close> if the type is not \<open>email\<close>, has \<open>isV3\<close> among its
  fields and the query, lower-cased, is the literal \<open>true\<close> or \<open>false\<close>, which is
  then \<open>b\<close>, and the string (backtick) clauses of the fields of the type other than
  \<open>imo\<close> and \<open>isV3\<close>. So there is no string clause on \<open>imo\<close>: when the parsed integer
  is safe, no clause of the group begins with \<open>imo:=\<close> and a backtick.
\<close>

theorem numeric_boolean_coercion:
  "(parseInt query = Some n \<longrightarrow>
      ''imo:='' @ number_text big n \<in> set (filterParts_of big ''vessel'' query))
   \<and> (safe_integer n \<longrightarrow> number_text big n = show_int n)
   \<and> filterParts_of big t query =
       (if t \<noteq> ''email'' \<and> ''imo'' \<in> set (searchFields_of t)
        then (case parseInt query of None \<Rightarrow> [] | Some m \<Rightarrow> [''imo:='' @ number_text big m])
        else [])
       @ (if t \<noteq> ''email'' \<and> ''isV3'' \<in> set (searchFields_of t)
             \<and> (toLowerCase query = ''true'' \<or> toLowerCase query = ''false'')
          then [''isV3:='' @ toLowerCase query] else [])
       @ map (\<lambda>field. field @ '':=`'' @ query @ ''`'')
           (filter (\<lambda>f. f \<noteq> ''imo'' \<and> f \<noteq> ''isV3'') (searchFields_of t))
   \<and> ((\<forall>m. parseInt query = Some m \<longrightarrow> safe_integer m) \<longrightarrow>
        (\<forall>c \<in> set (filterParts_of big t query). take 6 c \<noteq> ''imo:=`''))
   \<and> ''imo'' \<notin> set (stringFields_of (searchFields_of t))
   \<and> ''isV3'' \<notin> set (stringFields_of (searchFields_of t))
   \<and> ((''isV3:='' @ b \<in> set (filterParts_of big t query)) \<longleftrightarrow>
        (''isV3'' \<in> set (searchFields_of t) \<and> t \<noteq> ''email''
         \<and> (toLowerCase query = ''true'' \<or> toLowerCase query = ''false'')
         \<and> b = toLowerCase query))"
proof (intro conjI)
  show "parseInt query = Some n \<longrightarrow>
      ''imo:='' @ number_text big n \<in> set (filterParts_of big ''vessel'' query)"
    by (simp add: in_filterParts coerced_clauses_def)
  show "safe_integer n \<longrightarrow> number_text big n = show_int n"
    by (simp add: number_text_def)
  have sf: "stringFields_of (searchFields_of t)
            = filter (\<lambda>f. f \<noteq> ''imo'' \<and> f \<noteq> ''isV3'') (searchFields_of t)"
    by (simp add: stringFields_of_def numericFields_def boolFields_def)
  have em: "t = ''vessel'' \<longleftrightarrow> t \<noteq> ''email'' \<and> ''imo'' \<in> set (searchFields_of t)"
    "t = ''vessel'' \<longleftrightarrow> t \<noteq> ''email'' \<and> ''isV3'' \<in> set (searchFields_of t)"
    unfolding imo_in_searchFields isV3_in_searchFields by auto
  have cc: "coerced_clauses big t query =
       (if t = ''vessel''
        then (case parseInt query of None \<Rightarrow> [] | Some m \<Rightarrow> [''imo:='' @ number_text big m])
        else [])
       @ (if t = ''vessel'' \<and> (toLowerCase query = ''true'' \<or> toLowerCase query = ''false'')
          then [''isV3:='' @ toLowerCase query] else [])"
    by (simp add: coerced_clauses_def)
  show "filterParts_of big t query =
       (if t \<noteq> ''email'' \<and> ''imo'' \<in> set (searchFields_of t)
        then (case parseInt query of None \<Rightarrow> [] | Some m \<Rightarrow> [''imo:='' @ number_text big m])
        else [])
       @ (if t \<noteq> ''email'' \<and> ''isV3'' \<in> set (searchFields_of t)
             \<and> (toLowerCase query = ''true'' \<or> toLowerCase query = ''false'')
          then [''isV3:='' @ toLowerCase query] else [])
       @ map (\<lambda>field. field @ '':=`'' @ query @ ''`'')
           (filter (\<lambda>f. f \<noteq> ''imo'' \<and> f \<noteq> ''isV3'') (searchFields_of t))"
    unfolding filterParts_eq cc sf [symmetric] em(1) [symmetric]
    by (simp add: string_clause_def em(2) [symmetric] conj_assoc [symmetric] del: conj_assoc)
  show "(\<forall>m. parseInt query = Some m \<longrightarrow> safe_integer m) \<longrightarrow>
        (\<forall>c \<in> set (filterParts_of big t query). take 6 c \<noteq> ''imo:=`'')"
  proof (intro impI ballI)
    fix c
    assume safe: "\<forall>m. parseInt query = Some m \<longrightarrow> safe_integer m"
      and "c \<in> set (filterParts_of big t query)"
    then consider "c \<in> set (coerced_clauses big t query)"
      | f where "f \<in> set (stringFields_of (searchFields_of t))" "c = string_clause query f"
      unfolding in_filterParts by blast
    then show "take 6 c \<noteq> ''imo:=`''"
    proof cases
      case 1 then show ?thesis using safe by (rule coerced_not_imo_string)
    next
      case 2 then show ?thesis using string_clause_not_imo by simp
    qed
  qed
  show "''imo'' \<notin> set (stringFields_of (searchFields_of t))"
    by (simp add: stringFields_of_def numericFields_def)
  show "''isV3'' \<notin> set (stringFields_of (searchFields_of t))"
    by (simp add: stringFields_of_def boolFields_def)
  define c where "c = ''isV3:='' @ b"
  have no_string: "\<not> (\<exists>f \<in> set (stringFields_of (searchFields_of t)). c = string_clause query f)"
    using string_clause_not_isV3 [of _ t query b] unfolding c_def by fastforce
  have "c \<in> set (filterParts_of big t query) \<longleftrightarrow> c \<in> set (coerced_clauses big t query)"
    unfolding in_filterParts using no_string by blast
  also have "\<dots> \<longleftrightarrow> (t = ''vessel'' \<and> (toLowerCase query = ''true'' \<or> toLowerCase query = ''false'')
      \<and> b = toLowerCase query)"
    unfolding c_def by (rule isV3_in_coerced)
  also have "\<dots> \<longleftrightarrow> (''isV3'' \<in> set (searchFields_of t) \<and> t \<noteq> ''email''
         \<and> (toLowerCase query = ''true'' \<or> toLowerCase query = ''false'')
         \<and> b = toLowerCase query)"
    unfolding isV3_in_searchFields by auto
  finally show "(''isV3:='' @ b \<in> set (filterParts_of big t query)) \<longleftrightarrow>
        (''isV3'' \<in> set (searchFields_of t) \<and> t \<noteq> ''email''
         \<and> (toLowerCase query = ''true'' \<or> toLowerCase query = ''false'')
         \<and> b = toLowerCase query)"
    unfolding c_def .
qed

lemma parseInt_9876543: "parseInt ''9876543'' = Some 9876543"
  by (simp add: parseInt_def is_space_def is_digit_def digit_chars_def digits_val_def
      digit_val_def)

lemma show_int_9876543: "show_int 9876543 = ''9876543''"
  by (simp add: show_int_def show_nat.simps digit_char_def digit_chars_def)

lemma toLowerCase_TRUE: "toLowerCase ''TRUE'' = ''true''"
  by (simp add: toLowerCase_def lower_char_def upper_letters_def lower_letters_def)

theorem numeric_boolean_coercion_witness:
  "parseInt ''9876543'' = Some 9876543
   \<and> ''imo:=9876543'' \<in> set (filterParts_of example_big ''vessel'' ''9876543'')
   \<and> ''imo:=`9876543`'' \<notin> set (filterParts_of example_big ''vessel'' ''9876543'')
   \<and> ''isV3:=true'' \<in> set (filterParts_of example_big ''vessel'' ''TRUE'')
   \<and> ''isV3:=true'' \<notin> set (filterParts_of example_big ''name'' ''true'')
   \<and> ''isV3:=true'' \<notin> set (filterParts_of example_big ''email'' ''true'')"
proof -
  note a = numeric_boolean_coercion
    [where query = "''9876543''" and n = 9876543 and t = "''vessel''" and big = example_big]
  note b = numeric_boolean_coercion
    [where query = "''TRUE''" and t = "''vessel''" and b = "''true''" and big = example_big]
  note c = numeric_boolean_coercion
    [where query = "''true''" and t = "''name''" and b = "''true''" and big = example_big]
  note d = numeric_boolean_coercion
    [where query = "''true''" and t = "''email''" and b = "''true''" and big = example_big]
  have safe: "safe_integer 9876543" by (simp add: safe_integer_def)
  have nt: "number_text example_big 9876543 = ''9876543''"
    using a [THEN conjunct2, THEN conjunct1, THEN mp, OF safe] by (simp only: show_int_9876543)
  have "''imo:='' @ number_text example_big 9876543
          \<in> set (filterParts_of example_big ''vessel'' ''9876543'')"
    using a [THEN conjunct1] parseInt_9876543 by (rule mp)
  then have 1: "''imo:=9876543'' \<in> set (filterParts_of example_big ''vessel'' ''9876543'')"
    by (simp only: nt append.simps)
  have all_safe: "\<forall>m. parseInt ''9876543'' = Some m \<longrightarrow> safe_integer m"
    using safe by (simp add: parseInt_9876543)
  have 2: "''imo:=`9876543`'' \<notin> set (filterParts_of example_big ''vessel'' ''9876543'')"
  proof
    assume "''imo:=`9876543`'' \<in> set (filterParts_of example_big ''vessel'' ''9876543'')"
    with a [THEN conjunct2, THEN conjunct2, THEN conjunct2, THEN conjunct1, THEN mp, OF all_safe]
    have "take 6 ''imo:=`9876543`'' \<noteq> ''imo:=`''" by (rule bspec)
    then show False by simp
  qed
  note iff = conjunct2 [OF conjunct2 [OF conjunct2 [OF conjunct2 [OF conjunct2 [OF conjunct2]]]]]
  have e: "''isV3:='' @ ''true'' = ''isV3:=true''" by simp
  have 3: "''isV3:=true'' \<in> set (filterParts_of example_big ''vessel'' ''TRUE'')"
    using b [THEN iff] unfolding e by (simp add: isV3_in_searchFields toLowerCase_TRUE)
  have 4: "''isV3:=true'' \<notin> set (filterParts_of example_big ''name'' ''true'')"
    using c [THEN iff] unfolding e by (simp add: isV3_in_searchFields)
  have 5: "''isV3:=true'' \<notin> set (filterParts_of example_big ''email'' ''true'')"
    using d [THEN iff] unfolding e by simp
  from parseInt_9876543 1 2 3 4 5 show ?thesis by blast
qed

lemma digit_facts:
  assumes "is_digit c"
  shows "\<not> is_space c \<and> c \<noteq> CHR ''-'' \<and> c \<noteq> CHR ''+'' \<and> lower_char c = c
         \<and> c \<noteq> CHR ''t'' \<and> c \<noteq> CHR ''f''"
proof -
  have "list_all (\<lambda>c. \<not> is_space c \<and> c \<noteq> CHR ''-'' \<and> c \<noteq> CHR ''+'' \<and> lower_char c = c
         \<and> c \<noteq> CHR ''t'' \<and> c \<noteq> CHR ''f'') digit_chars"
    by (simp add: digit_chars_def is_space_def lower_char_def upper_letters_def
        lower_letters_def)
  with assms show ?thesis
    unfolding list_all_iff is_digit_def by blast
qed

lemma parseInt_digit_prefix:
  assumes "ds \<noteq> []" and "\<forall>c \<in> set ds. is_digit c" and "rest = [] \<or> \<not> is_digit (hd rest)"
  shows "parseInt (ds @ rest) = Some (int (digits_val ds))"
proof -
  obtain d ds' where ds: "ds = d # ds'" using assms(1) by (cases ds) auto
  with assms(2) have d: "is_digit d" by simp
  have 1: "dropWhile is_space (ds @ rest) = d # ds' @ rest"
    using ds digit_facts [OF d] by simp
  have "takeWhile is_digit rest = []"
    using assms(3) by (cases rest) auto
  with assms(2) have "takeWhile is_digit (ds @ rest) = ds"
    by (simp add: takeWhile_append2)
  then have 2: "takeWhile is_digit (d # ds' @ rest) = ds"
    using ds by simp
  have 3: "d \<noteq> CHR ''-''" "d \<noteq> CHR ''+''"
    using digit_facts [OF d] by blast+
  show ?thesis
    unfolding parseInt_def 1 Let_def list.case
    by (simp only: 3 2 assms(1) if_False simp_thms)
qed


lemma not_bool_literal_digit_prefix:
  assumes "ds \<noteq> []" and "\<forall>c \<in> set ds. is_digit c"
  shows "\<not> (toLowerCase (ds @ rest) = ''true'' \<or> toLowerCase (ds @ rest) = ''false'')"
proof -
  obtain d ds' where ds: "ds = d # ds'" using assms(1) by (cases ds) auto
  with assms(2) have d: "is_digit d" by simp
  have "hd (toLowerCase (ds @ rest)) = d"
    using ds digit_facts [OF d] by (simp add: toLowerCase_def)
  moreover have "d \<noteq> CHR ''t''" "d \<noteq> CHR ''f''" using digit_facts [OF d] by blast+
  ultimately show ?thesis by auto
qed

lemma coerced_digit_prefix:
  assumes "ds \<noteq> []" and "\<forall>c \<in> set ds. is_digit c" and "rest = [] \<or> \<not> is_digit (hd rest)"
  shows "coerced_clauses big ''vessel'' (ds @ rest)
         = [''imo:='' @ number_text big (int (digits_val ds))]"
  unfolding coerced_clauses_def
  by (simp only: parseInt_digit_prefix [OF assms] not_bool_literal_digit_prefix [OF assms(1,2)]
      if_True if_False option.case append_Nil2 simp_thms)

lemma digit_val_le: "digit_val c \<le> 9"
proof (cases "map_of (zip digit_chars [0, 1, 2, 3, 4, 5, 6, 7, 8, 9 :: nat]) c")
  case None
  then show ?thesis by (simp add: digit_val_def)
next
  case (Some d)
  then have "(c, d) \<in> set (zip digit_chars [0, 1, 2, 3, 4, 5, 6, 7, 8, 9])"
    by (rule map_of_SomeD)
  then have "d \<in> set [0, 1, 2, 3, 4, 5, 6, 7, 8, 9 :: nat]" by (rule set_zip_rightD)
  then have "d \<le> 9" by auto
  with Some show ?thesis by (simp add: digit_val_def)
qed

lemma foldl_digits_bound:
  "foldl (\<lambda>a c. 10 * a + digit_val c) a ds < (a + 1) * 10 ^ length ds"
proof (induction ds arbitrary: a)
  case Nil
  then show ?case by simp
next
  case (Cons c ds)
  have "foldl (\<lambda>a c. 10 * a + digit_val c) (10 * a + digit_val c) ds
        < (10 * a + digit_val c + 1) * 10 ^ length ds"
    by (rule Cons.IH)
  also have "\<dots> \<le> (10 * a + 10) * 10 ^ length ds"
    using digit_val_le [of c] by (intro mult_right_mono) simp_all
  also have "\<dots> = (a + 1) * 10 ^ length (c # ds)" by (simp add: algebra_simps)
  finally show ?case by simp
qed

lemma safe_digits:
  assumes "length ds \<le> 15"
  shows "safe_integer (int (digits_val ds))"
proof -
  have "digits_val ds < 10 ^ length ds"
    using foldl_digits_bound [of 0 ds] by (simp add: digits_val_def)
  also have "(10::nat) ^ length ds \<le> 10 ^ 15"
    using assms by (intro power_increasing) simp_all
  finally have "digits_val ds < 10 ^ 15" .
  then have "int (digits_val ds) < 10 ^ 15" by (metis of_nat_less_iff of_nat_numeral of_nat_power)
  then show ?thesis by (simp add: safe_integer_def)
qed

lemma number_text_safe: "safe_integer n \<Longrightarrow> number_text big n = show_int n"
  by (simp add: number_text_def)

lemma coerced_name: "coerced_clauses big ''name'' query = []"
  by (simp add: coerced_clauses_def)

lemma parseInt_76: "parseInt ''76 Main Street'' = Some 76"
  by (simp add: parseInt_def is_space_def is_digit_def digit_chars_def digits_val_def
      digit_val_def)

lemma show_int_76: "show_int 76 = ''76''"
  by (simp add: show_int_def show_nat.simps digit_char_def digit_chars_def)

lemma name_parts_76:
  "filterParts_of big ''name'' ''76 Main Street'' =
     map (string_clause ''76 Main Street'') personNameFields"
  unfolding filterParts_eq coerced_name stringFields_name by simp

lemma imo76_not_name: "''imo:=76'' \<notin> set (map (string_clause ''76 Main Street'') personNameFields)"
  by (simp add: personNameFields_def string_clause_def)

lemma parseInt_injected: "parseInt ''x` || imo:=`1'' = None"
  by (simp add: parseInt_def is_space_def is_digit_def digit_chars_def)

lemma toLowerCase_injected: "toLowerCase ''x` || imo:=`1'' = ''x` || imo:=`1''"
  by (simp add: toLowerCase_def lower_char_def upper_letters_def lower_letters_def)


text \<open>
  C9, as the code has it. The integer test reads a numeric prefix: a query that begins
  with decimal digits (at most 15, where the JavaScript Number is the exact integer) followed
  by anything that is not a digit parses as the integer of those digits. For the query
  type \<open>vessel\<close> the group then starts with the clause \<open>imo:=n\<close> for that integer,
  followed by the string clauses on the whole query string. For the query type \<open>name\<close>
  the same query gives the string clauses only, since \<open>imo\<close> is not a field of that
  group, and so it does for the query type \<open>email\<close>, which is never parsed.
\<close>

theorem numeric_prefix_vessel:
  assumes "ds \<noteq> []" and "\<forall>c \<in> set ds. is_digit c" and "length ds \<le> 15"
    and "rest = [] \<or> \<not> is_digit (hd rest)"
  shows "parseInt (ds @ rest) = Some (int (digits_val ds))
    \<and> filterParts_of big ''vessel'' (ds @ rest) =
        (''imo:='' @ show_int (int (digits_val ds)))
        # map (\<lambda>field. field @ '':=`'' @ (ds @ rest) @ ''`'')
            [''vesselName'', ''groupName'', ''shippalmDoc'', ''class'', ''doc'', ''fleet'']
    \<and> filterParts_of big ''name'' (ds @ rest) =
        map (\<lambda>field. field @ '':=`'' @ (ds @ rest) @ ''`'') personNameFields
    \<and> filterParts_of big ''email'' (ds @ rest) =
        map (\<lambda>field. field @ '':=`'' @ (ds @ rest) @ ''`'') emailFields"
proof (intro conjI)
  show "parseInt (ds @ rest) = Some (int (digits_val ds))"
    by (rule parseInt_digit_prefix [OF assms(1,2,4)])
  show "filterParts_of big ''vessel'' (ds @ rest) =
        (''imo:='' @ show_int (int (digits_val ds)))
        # map (\<lambda>field. field @ '':=`'' @ (ds @ rest) @ ''`'')
            [''vesselName'', ''groupName'', ''shippalmDoc'', ''class'', ''doc'', ''fleet'']"
    unfolding filterParts_eq coerced_digit_prefix [OF assms(1,2,4)] stringFields_vessel
      number_text_safe [OF safe_digits [OF assms(3)]]
    by (simp add: string_clause_def)
  show "filterParts_of big ''name'' (ds @ rest) =
        map (\<lambda>field. field @ '':=`'' @ (ds @ rest) @ ''`'') personNameFields"
    unfolding filterParts_eq coerced_name stringFields_name
    by (simp add: string_clause_def)
  have "coerced_clauses big ''email'' (ds @ rest) = []" by (simp add: coerced_clauses_def)
  then show "filterParts_of big ''email'' (ds @ rest) =
        map (\<lambda>field. field @ '':=`'' @ (ds @ rest) @ ''`'') emailFields"
    unfolding filterParts_eq stringFields_email
    by (simp add: string_clause_def)
qed

theorem numeric_prefix_vessel_witness:
  "filterParts_of example_big ''vessel'' ''76 Main Street'' =
     [''imo:=76'', ''vesselName:=`76 Main Street`'', ''groupName:=`76 Main Street`'',
      ''shippalmDoc:=`76 Main Street`'', ''class:=`76 Main Street`'', ''doc:=`76 Main Street`'',
      ''fleet:=`76 Main Street`'']"
proof -
  have dv: "int (digits_val ''76'') = 76"
    by (simp add: digits_val_def digit_val_def digit_chars_def)
  have h1: "''76'' \<noteq> []" by simp
  have h2: "\<forall>c \<in> set ''76''. is_digit c" by (simp add: is_digit_def digit_chars_def)
  have h3: "length ''76'' \<le> 15" by simp
  have h4: "'' Main Street'' = [] \<or> \<not> is_digit (hd '' Main Street'')"
    by (simp add: is_digit_def digit_chars_def)
  have q: "''76'' @ '' Main Street'' = ''76 Main Street''" by simp
  note t = numeric_prefix_vessel [OF h1 h2 h3 h4, THEN conjunct2, THEN conjunct1]
  show ?thesis
    using t unfolding q dv show_int_76 by simp
qed


text \<open>
  The claim C9 as worded covers every query type other than \<open>email\<close>. It fails for a
  name query: \<open>76 Main Street\<close> parses as 76, yet the name group has no clause
  \<open>imo:=76\<close>.
\<close>

theorem numeric_prefix_name_counterexample:
  "parseInt ''76 Main Street'' = Some 76
   \<and> ''imo:='' @ show_int 76 \<notin> set (filterParts_of example_big ''name'' ''76 Main Street'')"
  unfolding name_parts_76 show_int_76
  using parseInt_76 imo76_not_name by simp



text \<open>
  C10. Every string clause is the field, \<open>:=\<close>, a backtick, the raw query string and a
  backtick, with nothing escaped: the string-field loop appends exactly these texts, and they
  are the tail of every group. A query string that holds a backtick and \<open>||\<close> therefore
  yields, for each string field, a clause whose text is the \<open>||\<close>-join of two well-formed
  clauses.
\<close>

theorem string_clause_verbatim:
  "stringParts t query fp =
     fp @ map (\<lambda>field. field @ '':=`'' @ query @ ''`'') (stringFields_of (searchFields_of t))
   \<and> filterParts_of big t query =
     (if t \<noteq> ''email'' then boolParts t query (numericParts big t query []) else [])
     @ map (\<lambda>field. field @ '':=`'' @ query @ ''`'') (stringFields_of (searchFields_of t))
   \<and> stringParts t (a @ ''` || '' @ g @ '':=`'' @ b) [] =
     map (\<lambda>field. join '' || '' [field @ '':=`'' @ a @ ''`'', g @ '':=`'' @ b @ ''`''])
       (stringFields_of (searchFields_of t))"
  unfolding filterParts_of_def stringParts_eq string_clause_def by simp

theorem string_clause_verbatim_witness:
  "filterParts_of example_big ''vessel'' ''x` || imo:=`1'' =
     [''vesselName:=`x` || imo:=`1`'', ''groupName:=`x` || imo:=`1`'',
      ''shippalmDoc:=`x` || imo:=`1`'', ''class:=`x` || imo:=`1`'', ''doc:=`x` || imo:=`1`'',
      ''fleet:=`x` || imo:=`1`'']"
proof -
  have c: "boolParts ''vessel'' ''x` || imo:=`1'' (numericParts example_big ''vessel'' ''x` || imo:=`1'' []) = []"
    unfolding boolParts_eq numericParts_eq parseInt_injected toLowerCase_injected by simp
  show ?thesis
    using string_clause_verbatim
      [where t = "''vessel''" and query = "''x` || imo:=`1''" and big = example_big,
       THEN conjunct2, THEN conjunct1]
    unfolding c stringFields_vessel by simp
qed

section \<open>Claims about the active queries and the shape of the filter\<close>

lemma activeQueries_eq:
  "activeQueries args =
     (case name_query args of None \<Rightarrow> [] | Some s \<Rightarrow> [(''name'', s)])
     @ (case vessel_query args of None \<Rightarrow> [] | Some s \<Rightarrow> [(''vessel'', s)])
     @ (case email_query args of None \<Rightarrow> [] | Some s \<Rightarrow> [(''email'', s)])"
  by (simp add: activeQueries_def providedQueries_def split: option.splits)

lemma activeQueries_keys:
  "tq \<in> set (activeQueries args) \<Longrightarrow> fst tq = ''name'' \<or> fst tq = ''vessel'' \<or> fst tq = ''email''"
  by (auto simp: activeQueries_eq split: option.splits)

lemma stringFields_nonempty:
  "t = ''name'' \<or> t = ''vessel'' \<or> t = ''email'' \<Longrightarrow> stringFields_of (searchFields_of t) \<noteq> []"
  using stringFields_name stringFields_vessel stringFields_email
  by (auto simp: personNameFields_def emailFields_def)

lemma filterParts_nonempty:
  "t = ''name'' \<or> t = ''vessel'' \<or> t = ''email'' \<Longrightarrow> filterParts_of big t query \<noteq> []"
  using stringFields_nonempty [of t] by (simp add: filterParts_eq)

lemma combined_fold:
  "foldl (\<lambda>combined (queryType, query).
              let filterParts = filterParts_of big queryType query
              in if length filterParts > 0
                 then combined @ [''('' @ join '' || '' filterParts @ '')'']
                 else combined) acc aq
   = acc @ map (group_text big) (filter (\<lambda>tq. filterParts_of big (fst tq) (snd tq) \<noteq> []) aq)"
  by (induction aq arbitrary: acc) (simp_all add: group_text_def split_beta Let_def)

lemma combinedFilterParts_eq:
  "combinedFilterParts_of big aq =
     map (group_text big) (filter (\<lambda>tq. filterParts_of big (fst tq) (snd tq) \<noteq> []) aq)"
  unfolding combinedFilterParts_of_def combined_fold by simp

lemma combined_active:
  "combinedFilterParts_of big (activeQueries args) = map (group_text big) (activeQueries args)"
proof -
  have "filter (\<lambda>tq. filterParts_of big (fst tq) (snd tq) \<noteq> []) (activeQueries args) = activeQueries args"
    using activeQueries_keys filterParts_nonempty by (intro filter_True) blast
  then show ?thesis by (simp add: combinedFilterParts_eq)
qed


lemma group_text_eq: "group_text big = (\<lambda>(t, q). ''('' @ join '' || '' (filterParts_of big t q) @ '')'')"
  by (simp add: group_text_def fun_eq_iff)

lemma stringFields_subset: "set (stringFields_of xs) \<subseteq> set xs"
  by (auto simp: stringFields_of_def)

lemma clause_shape:
  assumes "c \<in> set (filterParts_of big t query)"
  shows "\<exists>f \<in> set (searchFields_of t). \<exists>v. c = f @ '':='' @ v"
proof -
  from assms consider "c \<in> set (coerced_clauses big t query)"
    | f where "f \<in> set (stringFields_of (searchFields_of t))" "c = string_clause query f"
    unfolding in_filterParts by blast
  then show ?thesis
  proof cases
    case 1
    then have t: "t = ''vessel''" and "c = ''imo'' @ '':='' @ drop 5 c \<or> c = ''isV3'' @ '':='' @ drop 6 c"
      by (auto simp: coerced_clauses_def split: if_splits option.splits)
    moreover have "''imo'' \<in> set (searchFields_of t)" "''isV3'' \<in> set (searchFields_of t)"
      using t by (simp_all add: imo_in_searchFields isV3_in_searchFields)
    ultimately show ?thesis by blast
  next
    case 2
    then have "f \<in> set (searchFields_of t)" using stringFields_subset by blast
    moreover have "c = f @ '':='' @ (''`'' @ query @ ''`'')" using 2 by (simp add: string_clause_def)
    ultimately show ?thesis by blast
  qed
qed

lemma vessel_string_clauses:
  "''vesselName:=`'' @ query @ ''`'' \<in> set (filterParts_of big ''vessel'' query)
   \<and> ''fleet:=`'' @ query @ ''`'' \<in> set (filterParts_of big ''vessel'' query)"
  unfolding filterParts_eq stringFields_vessel by (simp add: string_clause_def)





lemma join_nonempty: "x \<noteq> [] \<Longrightarrow> join sep (x # xs) \<noteq> []"
  by (cases xs) simp_all

lemma clause_nonempty: "c \<in> set (filterParts_of big t query) \<Longrightarrow> c \<noteq> []"
  using clause_shape [of c big t query] by auto

lemma group_text_not_empty_parens:
  assumes "filterParts_of big (fst tq) (snd tq) \<noteq> []"
  shows "group_text big tq \<noteq> ''()''"
proof -
  from assms obtain c cs where fp: "filterParts_of big (fst tq) (snd tq) = c # cs"
    by (cases "filterParts_of big (fst tq) (snd tq)") auto
  then have "c \<noteq> []" using clause_nonempty [of c big "fst tq" "snd tq"] by simp
  then have "join '' || '' (c # cs) \<noteq> []" by (rule join_nonempty)
  then show ?thesis unfolding group_text_def fp by (cases "join '' || '' (c # cs)") auto
qed

lemma no_empty_group: "''()'' \<notin> set (combinedFilterParts_of big aq)"
proof
  assume "''()'' \<in> set (combinedFilterParts_of big aq)"
  then obtain tq where "filterParts_of big (fst tq) (snd tq) \<noteq> []" "group_text big tq = ''()''"
    unfolding combinedFilterParts_eq by auto
  then show False using group_text_not_empty_parens by blast
qed

lemma string_clause_in_parts:
  "f \<in> set (stringFields_of (searchFields_of t)) \<Longrightarrow>
     f @ '':=`'' @ query @ ''`'' \<in> set (filterParts_of big t query)"
  unfolding in_filterParts string_clause_def by blast

lemma active_empty_name:
  "activeQueries \<lparr>name_query = Some [], vessel_query = Some ''Ever Given'', email_query = None\<rparr>
     = [(''name'', []), (''vessel'', ''Ever Given'')]"
  by (simp add: activeQueries_eq)

lemma active_vessel_only:
  "activeQueries \<lparr>name_query = None, vessel_query = Some ''Ever Given'', email_query = None\<rparr>
     = [(''vessel'', ''Ever Given'')]"
  by (simp add: activeQueries_eq)

lemma filterQuery_two:
  assumes "filterParts_of big t1 q1 \<noteq> []" "filterParts_of big t2 q2 \<noteq> []"
  shows "filterQuery_of big [(t1, q1), (t2, q2)] = group_text big (t1, q1) @ '' && '' @ group_text big (t2, q2)"
  using assms by (simp add: filterQuery_of_def combinedFilterParts_eq)

lemma filterQuery_one:
  assumes "filterParts_of big t1 q1 \<noteq> []"
  shows "filterQuery_of big [(t1, q1)] = group_text big (t1, q1)"
  using assms by (simp add: filterQuery_of_def combinedFilterParts_eq)















text \<open>
  C1, as the code has it. \<open>activeQueries\<close> drops exactly the slots that are undefined
  or null and keeps every string, in the order name, vessel, email; each kept slot gives one
  parenthesised group. A group is pushed only when it has a clause, so no filter holds an
  empty group \<open>()\<close>. Query strings are not trimmed: for each of the three query types
  and every query string, the white-space-only ones included, the group is not empty and
  holds the clause \<open>field:=`query`\<close> of every string field of the type.
\<close>

theorem absent_slots_dropped:
  "activeQueries args =
     (case name_query args of None \<Rightarrow> [] | Some s \<Rightarrow> [(''name'', s)])
     @ (case vessel_query args of None \<Rightarrow> [] | Some s \<Rightarrow> [(''vessel'', s)])
     @ (case email_query args of None \<Rightarrow> [] | Some s \<Rightarrow> [(''email'', s)])
   \<and> combinedFilterParts_of big (activeQueries args) =
       map (\<lambda>(t, s). ''('' @ join '' || '' (filterParts_of big t s) @ '')'') (activeQueries args)
   \<and> ''()'' \<notin> set (combinedFilterParts_of big aq)
   \<and> (t = ''name'' \<or> t = ''vessel'' \<or> t = ''email'' \<longrightarrow>
        filterParts_of big t query \<noteq> []
        \<and> (\<forall>f \<in> set (stringFields_of (searchFields_of t)).
              f @ '':=`'' @ query @ ''`'' \<in> set (filterParts_of big t query)))"
proof (intro conjI impI ballI)
  show "activeQueries args =
     (case name_query args of None \<Rightarrow> [] | Some s \<Rightarrow> [(''name'', s)])
     @ (case vessel_query args of None \<Rightarrow> [] | Some s \<Rightarrow> [(''vessel'', s)])
     @ (case email_query args of None \<Rightarrow> [] | Some s \<Rightarrow> [(''email'', s)])"
    by (rule activeQueries_eq)
  show "combinedFilterParts_of big (activeQueries args) =
       map (\<lambda>(t, s). ''('' @ join '' || '' (filterParts_of big t s) @ '')'') (activeQueries args)"
    unfolding combined_active group_text_eq ..
  show "''()'' \<notin> set (combinedFilterParts_of big aq)" by (rule no_empty_group)
next
  assume "t = ''name'' \<or> t = ''vessel'' \<or> t = ''email''"
  then show "filterParts_of big t query \<noteq> []" by (rule filterParts_nonempty)
next
  fix f assume "f \<in> set (stringFields_of (searchFields_of t))"
  then show "f @ '':=`'' @ query @ ''`'' \<in> set (filterParts_of big t query)"
    by (rule string_clause_in_parts)
qed

theorem absent_slots_dropped_witness:
  "activeQueries \<lparr>name_query = None, vessel_query = Some ''Ever Given'', email_query = None\<rparr>
     = [(''vessel'', ''Ever Given'')]
   \<and> ''()'' \<notin> set (combinedFilterParts_of example_big [(''vessel'', ''Ever Given''), (''other'', ''x'')])
   \<and> filterParts_of example_big ''name'' '' '' \<noteq> []
   \<and> ''owner:=` `'' \<in> set (filterParts_of example_big ''name'' '' '')"
proof -
  note a = absent_slots_dropped
    [where args = "\<lparr>name_query = None, vessel_query = Some ''Ever Given'', email_query = None\<rparr>"
       and aq = "[(''vessel'', ''Ever Given''), (''other'', ''x'')]" and t = "''name''"
       and query = "'' ''" and big = example_big]
  have 1: "activeQueries \<lparr>name_query = None, vessel_query = Some ''Ever Given'', email_query = None\<rparr>
     = [(''vessel'', ''Ever Given'')]"
    using a [THEN conjunct1] by simp
  have 2: "''()'' \<notin> set (combinedFilterParts_of example_big [(''vessel'', ''Ever Given''), (''other'', ''x'')])"
    using a [THEN conjunct2, THEN conjunct2, THEN conjunct1] .
  have i: "filterParts_of example_big ''name'' '' '' \<noteq> []
        \<and> (\<forall>f \<in> set (stringFields_of (searchFields_of ''name'')).
              f @ '':=`'' @ '' '' @ ''`'' \<in> set (filterParts_of example_big ''name'' '' ''))"
    using a [THEN conjunct2, THEN conjunct2, THEN conjunct2] by simp
  have f: "''owner'' \<in> set (stringFields_of (searchFields_of ''name''))"
    unfolding stringFields_name by (simp add: personNameFields_def)
  have 4: "''owner:=` `'' \<in> set (filterParts_of example_big ''name'' '' '')"
    using i [THEN conjunct2, THEN bspec, OF f] by simp
  from 1 2 i [THEN conjunct1] 4 show ?thesis by blast
qed

text \<open>
  The claim C1 as worded fails: with \<open>name_query\<close> the empty string next to
  \<open>vessel_query = Ever Given\<close> the filter differs from the filter of the vessel query
  alone, since the name group is there with clauses such as
  \<open>technicalSuperintendent:=``\<close>; and a name query of one space contributes clauses too.
\<close>

theorem empty_slot_counterexample:
  "filterQuery_of example_big
     (activeQueries \<lparr>name_query = Some [], vessel_query = Some ''Ever Given'', email_query = None\<rparr>)
   \<noteq> filterQuery_of example_big
     (activeQueries \<lparr>name_query = None, vessel_query = Some ''Ever Given'', email_query = None\<rparr>)
   \<and> ''technicalSuperintendent:=``'' \<in> set (filterParts_of example_big ''name'' [])
   \<and> ''technicalSuperintendent:=` `'' \<in> set (filterParts_of example_big ''name'' '' '')"
proof -
  have n: "filterParts_of example_big ''name'' [] \<noteq> []" and v: "filterParts_of example_big ''vessel'' ''Ever Given'' \<noteq> []"
    by (simp_all add: filterParts_nonempty)
  have "length (filterQuery_of example_big [(''name'', []), (''vessel'', ''Ever Given'')])
        \<noteq> length (filterQuery_of example_big [(''vessel'', ''Ever Given'')])"
    unfolding filterQuery_two [OF n v] filterQuery_one [OF v] by simp
  then have 1: "filterQuery_of example_big [(''name'', []), (''vessel'', ''Ever Given'')]
        \<noteq> filterQuery_of example_big [(''vessel'', ''Ever Given'')]" by auto
  have f: "''technicalSuperintendent'' \<in> set (stringFields_of (searchFields_of ''name''))"
    unfolding stringFields_name by (simp add: personNameFields_def)
  have 2: "''technicalSuperintendent:=``'' \<in> set (filterParts_of example_big ''name'' [])"
    using string_clause_in_parts [OF f, of "[]"] by simp
  have 3: "''technicalSuperintendent:=` `'' \<in> set (filterParts_of example_big ''name'' '' '')"
    using string_clause_in_parts [OF f, of "'' ''"] by simp
  from 1 2 3 show ?thesis unfolding active_empty_name active_vessel_only by blast
qed



section \<open>Claims about the fuzzy query\<close>

lemma foldl_set_add_distinct:
  "distinct (s @ xs) \<Longrightarrow> foldl set_add s xs = s @ xs"
proof (induction xs arbitrary: s)
  case Nil
  then show ?case by simp
next
  case (Cons x xs)
  from Cons.prems have "x \<notin> set s" and "distinct ((s @ [x]) @ xs)" by auto
  then show ?case using Cons.IH [of "s @ [x]"] by (simp add: set_add_def)
qed

lemma all_fields_distinct: "distinct (personNameFields @ vesselInfoFields @ emailFields)"
  by (simp add: personNameFields_def vesselInfoFields_def emailFields_def)

lemma fuzzyQueryByFields_eq:
  "fuzzyQueryByFields aq =
     (if slot_truthy aq ''name'' then personNameFields else [])
     @ (if slot_truthy aq ''vessel'' then vesselInfoFields else [])
     @ (if slot_truthy aq ''email'' then emailFields else [])"
proof -
  have d: "distinct (personNameFields @ vesselInfoFields @ emailFields)"
    by (rule all_fields_distinct)
  have n: "foldl set_add [] personNameFields = personNameFields"
    using d by (intro foldl_set_add_distinct [of "[]", simplified]) simp
  have v0: "foldl set_add [] vesselInfoFields = vesselInfoFields"
    using d by (intro foldl_set_add_distinct [of "[]", simplified]) simp
  have e0: "foldl set_add [] emailFields = emailFields"
    using d by (intro foldl_set_add_distinct [of "[]", simplified]) simp
  have nv: "foldl set_add personNameFields vesselInfoFields = personNameFields @ vesselInfoFields"
    using d by (intro foldl_set_add_distinct) auto
  have ne: "foldl set_add personNameFields emailFields = personNameFields @ emailFields"
    using d by (intro foldl_set_add_distinct) auto
  have ve: "foldl set_add vesselInfoFields emailFields = vesselInfoFields @ emailFields"
    using d by (intro foldl_set_add_distinct) auto
  have nve: "foldl set_add (personNameFields @ vesselInfoFields) emailFields
             = personNameFields @ vesselInfoFields @ emailFields"
    using d by (subst foldl_set_add_distinct) auto
  show ?thesis
    unfolding fuzzyQueryByFields_def Let_def
    by (simp add: n v0 e0 nv ne ve nve)
qed

lemma filter_strings_name:
  "filter (\<lambda>f. f \<notin> set numericFields \<and> f \<notin> set boolFields) personNameFields = personNameFields"
  using stringFields_name by (simp add: stringFields_of_def searchFields_of_def)

lemma filter_strings_email:
  "filter (\<lambda>f. f \<notin> set numericFields \<and> f \<notin> set boolFields) emailFields = emailFields"
  using stringFields_email by (simp add: stringFields_of_def searchFields_of_def)

lemma filter_strings_vessel:
  "filter (\<lambda>f. f \<notin> set numericFields \<and> f \<notin> set boolFields) vesselInfoFields
     = [''vesselName'', ''groupName'', ''shippalmDoc'', ''class'', ''doc'', ''fleet'']"
  using stringFields_vessel by (simp add: stringFields_of_def searchFields_of_def)

lemma fuzzyStringFields_eq:
  "fuzzyStringFields_of aq =
     (if slot_truthy aq ''name'' then personNameFields else [])
     @ (if slot_truthy aq ''vessel''
        then [''vesselName'', ''groupName'', ''shippalmDoc'', ''class'', ''doc'', ''fleet''] else [])
     @ (if slot_truthy aq ''email'' then emailFields else [])"
  unfolding fuzzyStringFields_of_def fuzzyQueryByFields_eq filter_append
  by (simp add: filter_strings_name filter_strings_email filter_strings_vessel)

lemma slot_truthy_active:
  "slot_truthy (activeQueries args) ''name'' = (case name_query args of None \<Rightarrow> False | Some s \<Rightarrow> s \<noteq> [])"
  "slot_truthy (activeQueries args) ''vessel'' = (case vessel_query args of None \<Rightarrow> False | Some s \<Rightarrow> s \<noteq> [])"
  "slot_truthy (activeQueries args) ''email'' = (case email_query args of None \<Rightarrow> False | Some s \<Rightarrow> s \<noteq> [])"
  by (simp_all add: slot_truthy_def activeQueries_eq split: option.splits)

lemma searchFields_simps:
  "searchFields_of ''name'' = personNameFields"
  "searchFields_of ''vessel'' = vesselInfoFields"
  "searchFields_of ''email'' = emailFields"
  by (simp_all add: searchFields_of_def)

lemma fields_of_append:
  "{f. \<exists>t s. (t, s) \<in> set (X @ Y @ Z) \<and> s \<noteq> [] \<and> f \<in> F t}
   = {f. \<exists>t s. (t, s) \<in> set X \<and> s \<noteq> [] \<and> f \<in> F t}
     \<union> {f. \<exists>t s. (t, s) \<in> set Y \<and> s \<noteq> [] \<and> f \<in> F t}
     \<union> {f. \<exists>t s. (t, s) \<in> set Z \<and> s \<noteq> [] \<and> f \<in> F t}"
  by auto

lemma fields_of_slot:
  "{f. \<exists>t s. (t, s) \<in> set (case v of None \<Rightarrow> [] | Some x \<Rightarrow> [(k, x)]) \<and> s \<noteq> [] \<and> f \<in> F t}
   = (if (case v of None \<Rightarrow> False | Some x \<Rightarrow> x \<noteq> []) then F k else {})"
  by (cases v) auto

lemma nonempty_active_fields:
  "{f. \<exists>t s. (t, s) \<in> set (activeQueries args) \<and> s \<noteq> [] \<and> f \<in> set (searchFields_of t)}
   = (if slot_truthy (activeQueries args) ''name'' then set personNameFields else {})
     \<union> (if slot_truthy (activeQueries args) ''vessel'' then set vesselInfoFields else {})
     \<union> (if slot_truthy (activeQueries args) ''email'' then set emailFields else {})"
  unfolding slot_truthy_active
  unfolding activeQueries_eq fields_of_append [where F = "\<lambda>t. set (searchFields_of t)"]
    fields_of_slot [where F = "\<lambda>t. set (searchFields_of t)"] searchFields_simps ..

lemma string_sets:
  "set personNameFields - {''imo'', ''isV3''} = set personNameFields"
  "set emailFields - {''imo'', ''isV3''} = set emailFields"
  "set vesselInfoFields - {''imo'', ''isV3''}
     = set [''vesselName'', ''groupName'', ''shippalmDoc'', ''class'', ''doc'', ''fleet'']"
proof -
  have "''imo'' \<notin> set personNameFields \<and> ''isV3'' \<notin> set personNameFields"
    by (simp add: personNameFields_def)
  then show "set personNameFields - {''imo'', ''isV3''} = set personNameFields" by blast
  have "''imo'' \<notin> set emailFields \<and> ''isV3'' \<notin> set emailFields"
    by (simp add: emailFields_def)
  then show "set emailFields - {''imo'', ''isV3''} = set emailFields" by blast
  have "set (filter (\<lambda>f. f \<notin> set numericFields \<and> f \<notin> set boolFields) vesselInfoFields)
        = set vesselInfoFields - {''imo'', ''isV3''}"
    unfolding set_filter numericFields_def boolFields_def by auto
  then show "set vesselInfoFields - {''imo'', ''isV3''}
     = set [''vesselName'', ''groupName'', ''shippalmDoc'', ''class'', ''doc'', ''fleet'']"
    unfolding filter_strings_vessel by simp
qed

lemma fuzzy_scope_set:
  "set (fuzzyStringFields_of (activeQueries args))
   = {f. \<exists>t s. (t, s) \<in> set (activeQueries args) \<and> s \<noteq> [] \<and> f \<in> set (searchFields_of t)}
     - {''imo'', ''isV3''}"
  unfolding nonempty_active_fields fuzzyStringFields_eq Un_Diff
  by (simp only: if_distrib [of "\<lambda>X. X - _"] string_sets set_append empty_Diff
      if_distrib [of set] list.set(1) Un_assoc)

lemma distinct_optional_parts:
  "distinct (A @ B @ C) \<Longrightarrow>
     distinct ((if a then A else []) @ (if b then B else []) @ (if c then C else []))"
  by auto

lemma fuzzy_distinct: "distinct (fuzzyStringFields_of aq)"
proof -
  have "distinct (filter (\<lambda>f. f \<notin> set numericFields \<and> f \<notin> set boolFields)
                    (personNameFields @ vesselInfoFields @ emailFields))"
    using all_fields_distinct by (rule distinct_filter)
  then have d: "distinct (personNameFields
        @ [''vesselName'', ''groupName'', ''shippalmDoc'', ''class'', ''doc'', ''fleet'']
        @ emailFields)"
    unfolding filter_append filter_strings_name filter_strings_email filter_strings_vessel .
  show ?thesis
    unfolding fuzzyStringFields_eq using d by (rule distinct_optional_parts)
qed

lemma slot_truthy_empty_name:
  "\<not> slot_truthy [(''name'', []), (''vessel'', ''Ever Given'')] ''name''"
  "slot_truthy [(''name'', []), (''vessel'', ''Ever Given'')] ''vessel''"
  "\<not> slot_truthy [(''name'', []), (''vessel'', ''Ever Given'')] ''email''"
  by (simp_all add: slot_truthy_def)

lemma fuzzy_fields_empty_name:
  "fuzzyStringFields_of [(''name'', []), (''vessel'', ''Ever Given'')]
     = [''vesselName'', ''groupName'', ''shippalmDoc'', ''class'', ''doc'', ''fleet'']"
  unfolding fuzzyStringFields_eq by (simp add: slot_truthy_empty_name)


text \<open>
  C5, as the code has it. The fuzzy request has as its free-text query the strings of
  all active queries, joined by single spaces, and a page size of 10. Its \<open>query_by\<close>
  is the comma-join of the scope, which is built from the slots that pass the test
  \<open>if (activeQueries.name)\<close>: the field lists of the active query types whose query
  string is not empty, in the order name, vessel, email, without \<open>imo\<close> and
  \<open>isV3\<close> and without repetition.
\<close>

theorem fuzzy_query_scope:
  "q (fuzzyParams aq) = join '' '' (map snd aq)
   \<and> per_page (fuzzyParams aq) = 10
   \<and> query_by (fuzzyParams aq) = Some (join '','' (fuzzyStringFields_of aq))
   \<and> fuzzyStringFields_of aq =
       (if slot_truthy aq ''name'' then personNameFields else [])
       @ (if slot_truthy aq ''vessel''
          then [''vesselName'', ''groupName'', ''shippalmDoc'', ''class'', ''doc'', ''fleet'']
          else [])
       @ (if slot_truthy aq ''email'' then emailFields else [])
   \<and> distinct (fuzzyStringFields_of aq)
   \<and> set (fuzzyStringFields_of (activeQueries args))
       = {f. \<exists>t s. (t, s) \<in> set (activeQueries args) \<and> s \<noteq> [] \<and> f \<in> set (searchFields_of t)}
         - {''imo'', ''isV3''}"
proof (intro conjI)
  show "q (fuzzyParams aq) = join '' '' (map snd aq)"
    by (simp add: fuzzyParams_def fuzzyQ_of_def)
  show "per_page (fuzzyParams aq) = 10" by (simp add: fuzzyParams_def)
  show "query_by (fuzzyParams aq) = Some (join '','' (fuzzyStringFields_of aq))"
    by (simp add: fuzzyParams_def)
  show "fuzzyStringFields_of aq =
       (if slot_truthy aq ''name'' then personNameFields else [])
       @ (if slot_truthy aq ''vessel''
          then [''vesselName'', ''groupName'', ''shippalmDoc'', ''class'', ''doc'', ''fleet'']
          else [])
       @ (if slot_truthy aq ''email'' then emailFields else [])"
    by (rule fuzzyStringFields_eq)
  show "distinct (fuzzyStringFields_of aq)" by (rule fuzzy_distinct)
  show "set (fuzzyStringFields_of (activeQueries args))
       = {f. \<exists>t s. (t, s) \<in> set (activeQueries args) \<and> s \<noteq> [] \<and> f \<in> set (searchFields_of t)}
         - {''imo'', ''isV3''}"
    by (rule fuzzy_scope_set)
qed

theorem fuzzy_query_scope_witness:
  "q (fuzzyParams [(''name'', ''Alice''), (''vessel'', ''IMO 123'')]) = ''Alice IMO 123''
   \<and> per_page (fuzzyParams [(''name'', ''Alice''), (''vessel'', ''IMO 123'')]) = 10
   \<and> fuzzyStringFields_of [(''name'', ''Alice''), (''vessel'', ''IMO 123'')]
       = personNameFields
         @ [''vesselName'', ''groupName'', ''shippalmDoc'', ''class'', ''doc'', ''fleet'']"
proof -
  note a = fuzzy_query_scope [of "[(''name'', ''Alice''), (''vessel'', ''IMO 123'')]"]
  have s: "slot_truthy [(''name'', ''Alice''), (''vessel'', ''IMO 123'')] ''name''"
    "slot_truthy [(''name'', ''Alice''), (''vessel'', ''IMO 123'')] ''vessel''"
    "\<not> slot_truthy [(''name'', ''Alice''), (''vessel'', ''IMO 123'')] ''email''"
    by (simp_all add: slot_truthy_def)
  have 1: "q (fuzzyParams [(''name'', ''Alice''), (''vessel'', ''IMO 123'')]) = ''Alice IMO 123''"
    using a [THEN conjunct1] by simp
  have 2: "per_page (fuzzyParams [(''name'', ''Alice''), (''vessel'', ''IMO 123'')]) = 10"
    using a [THEN conjunct2, THEN conjunct1] .
  have 3: "fuzzyStringFields_of [(''name'', ''Alice''), (''vessel'', ''IMO 123'')]
       = personNameFields
         @ [''vesselName'', ''groupName'', ''shippalmDoc'', ''class'', ''doc'', ''fleet'']"
    using a [THEN conjunct2, THEN conjunct2, THEN conjunct2, THEN conjunct1]
    by (simp only: s if_True if_False append_Nil2)
  from 1 2 3 show ?thesis by blast
qed

text \<open>
  The claim C5 as worded takes the field lists of every active query type. It fails when
  an active query is the empty string: with \<open>name_query\<close> empty and
  \<open>vessel_query = Ever Given\<close> the name slot is active and its string is part of the
  free-text query (hence the leading space), but no name field is in the scope.
\<close>

theorem fuzzy_scope_counterexample:
  "(''name'', []) \<in> set (activeQueries
       \<lparr>name_query = Some [], vessel_query = Some ''Ever Given'', email_query = None\<rparr>)
   \<and> ''technicalSuperintendent'' \<in> set (searchFields_of ''name'')
   \<and> ''technicalSuperintendent'' \<notin> set (fuzzyStringFields_of (activeQueries
       \<lparr>name_query = Some [], vessel_query = Some ''Ever Given'', email_query = None\<rparr>))
   \<and> q (fuzzyParams (activeQueries
       \<lparr>name_query = Some [], vessel_query = Some ''Ever Given'', email_query = None\<rparr>))
       = '' Ever Given''
   \<and> query_by (fuzzyParams (activeQueries
       \<lparr>name_query = Some [], vessel_query = Some ''Ever Given'', email_query = None\<rparr>))
       = Some ''vesselName,groupName,shippalmDoc,class,doc,fleet''"
  unfolding active_empty_name fuzzyParams_def fuzzyQ_of_def fuzzy_fields_empty_name
    searchFields_simps
  by (simp add: personNameFields_def)



section \<open>Claims about the result formatter\<close>

lemma format_doc_eq:
  "format_doc big rt doc =
     rt @ concat (map (\<lambda>(key, v). displayKey key @ '': '' @ displayValue big v @ ''\<newline>'')
                     (filter (\<lambda>(key, v). truthy v) doc))"
  unfolding format_doc_def
  by (induction doc arbitrary: rt) (simp_all add: split_beta)

lemma format_hits_eq:
  "format_hits big rt i hs =
     rt @ concat (map (\<lambda>(j, doc). ''--- Result '' @ show_nat (j + 1) @ '' ---\<newline>''
                                   @ format_doc big [] doc @ ''\<newline>'')
                     (zip [i..<i + length hs] hs))"
proof (induction hs arbitrary: rt i)
  case Nil
  then show ?case by simp
next
  case (Cons doc hs)
  have "i < i + length (doc # hs)" by simp
  from upt_conv_Cons [OF this]
  have "[i..<i + length (doc # hs)] = i # [Suc i..<Suc i + length hs]"
    by simp
  then show ?case
    using Cons.IH [of _ "Suc i"] by (simp add: format_doc_eq)
qed

lemma truthy_iff:
  "truthy v \<longleftrightarrow> v \<noteq> JUndefined \<and> v \<noteq> JNull \<and> v \<noteq> JBool False \<and> v \<noteq> JNum 0 \<and> v \<noteq> JNaN
      \<and> v \<noteq> JStr []"
  by (cases v) auto

lemma format_doc_falsy:
  "\<not> truthy v \<Longrightarrow> format_doc big txt (xs @ (key, v) # ys) = format_doc big txt (xs @ ys)"
  by (simp add: format_doc_eq)

lemma responseText_falsy:
  assumes "\<not> truthy v"
  shows "responseText_of big fnd (hs1 @ (xs @ (key, v) # ys) # hs2)
         = responseText_of big fnd (hs1 @ (xs @ ys) # hs2)"
proof -
  have "map (\<lambda>(j, doc). ''--- Result '' @ show_nat (j + 1) @ '' ---\<newline>''
                                   @ format_doc big [] doc @ ''\<newline>'')
          (zip [0..<length hs1 + Suc (length hs2)] (hs1 @ (xs @ (key, v) # ys) # hs2))
      = map (\<lambda>(j, doc). ''--- Result '' @ show_nat (j + 1) @ '' ---\<newline>''
                                   @ format_doc big [] doc @ ''\<newline>'')
          (zip [0..<length hs1 + Suc (length hs2)] (hs1 @ (xs @ ys) # hs2))"
    by (rule nth_equalityI)
       (auto simp: nth_append nth_Cons' format_doc_falsy [OF assms])
  then show ?thesis
    by (simp add: responseText_of_def format_hits_eq)
qed

lemma displayKey_lower_start:
  assumes "\<not> is_upper c" "c \<noteq> CHR 0x0A" "c \<noteq> CHR 0x0D"
  shows "displayKey (c # cs) =
           upper_char c # concat (map (\<lambda>d. if is_upper d then [CHR '' '', d] else [d]) cs)"
  using assms by (simp add: displayKey_def)

lemma displayKey_owner: "displayKey ''owner'' = ''Owner''"
  by (simp add: displayKey_def is_upper_def upper_letters_def upper_char_def lower_letters_def)

lemma displayKey_vesselName: "displayKey ''vesselName'' = ''Vessel Name''"
  by (simp add: displayKey_def is_upper_def upper_letters_def upper_char_def lower_letters_def)

lemma displayValue_array:
  "displayValue big (JArr xs) =
     join '', '' (map (\<lambda>x. if x = JUndefined \<or> x = JNull then [] else js_String big x) xs)"
  by (simp add: displayValue_def array_join_def)

lemma show_nat_1: "show_nat 1 = ''1''" "show_nat (Suc 0) = ''1''"
  by (simp_all add: show_nat.simps digit_char_def digit_chars_def)

lemma number_text_1: "number_text big 1 = ''1''"
  by (simp add: number_text_def safe_integer_def show_int_def show_nat_1)

lemma displayKey_isV3: "displayKey ''isV3'' = ''Is V3''"
  by (simp add: displayKey_def is_upper_def upper_letters_def upper_char_def lower_letters_def)

text \<open>
  C7, as the code has it. For a hit set that is not empty the report is the formatted
  text: a header that gives the total found and the number of hits shown, then for each
  hit, in order and numbered from 1, one line \<open>Label: value\<close> for each field whose value
  is truthy, that is, passes the test \<open>if (value)\<close>, and nothing for the others. The empty
  string, null and undefined are not truthy, and neither are false and 0; every array is,
  the empty one too. The label of a key is the key with a space before every capital letter
  and its first character in upper case; an array value is its elements joined by a comma
  and a space, so \<open>owner: [A Corp, B Corp]\<close> prints \<open>Owner: A Corp, B Corp\<close>.
\<close>

theorem formatter_lines:
  "responseText_of big fnd hs =
     ''Found '' @ number_text big (int fnd) @ '' results. Showing top '' @ show_nat (length hs)
     @ '':\<newline>\<newline>''
     @ concat (map (\<lambda>(i, doc).
                 ''--- Result '' @ show_nat (i + 1) @ '' ---\<newline>''
                 @ concat (map (\<lambda>(key, v). displayKey key @ '': '' @ displayValue big v @ ''\<newline>'')
                             (filter (\<lambda>(key, v). truthy v) doc))
                 @ ''\<newline>'')
               (zip [0..<length hs] hs))
   \<and> (hs \<noteq> [] \<longrightarrow> report big r hs = responseText_of big (found r) hs)
   \<and> \<not> truthy (JStr []) \<and> \<not> truthy JNull \<and> \<not> truthy JUndefined
   \<and> \<not> truthy (JBool False) \<and> \<not> truthy (JNum 0) \<and> truthy (JArr xs)
   \<and> (\<not> is_upper c \<and> c \<noteq> CHR 0x0A \<and> c \<noteq> CHR 0x0D \<longrightarrow>
        displayKey (c # cs) =
          upper_char c # concat (map (\<lambda>d. if is_upper d then [CHR '' '', d] else [d]) cs))
   \<and> displayValue big (JArr xs) =
        join '', '' (map (\<lambda>x. if x = JUndefined \<or> x = JNull then [] else js_String big x) xs)
   \<and> displayKey ''owner'' @ '': '' @ displayValue big (JArr [JStr ''A Corp'', JStr ''B Corp''])
        = ''Owner: A Corp, B Corp''"
proof (intro conjI impI)
  show "responseText_of big fnd hs =
     ''Found '' @ number_text big (int fnd) @ '' results. Showing top '' @ show_nat (length hs)
     @ '':\<newline>\<newline>''
     @ concat (map (\<lambda>(i, doc).
                 ''--- Result '' @ show_nat (i + 1) @ '' ---\<newline>''
                 @ concat (map (\<lambda>(key, v). displayKey key @ '': '' @ displayValue big v @ ''\<newline>'')
                             (filter (\<lambda>(key, v). truthy v) doc))
                 @ ''\<newline>'')
               (zip [0..<length hs] hs))"
    by (simp add: responseText_of_def format_hits_eq format_doc_eq)
  show "report big r hs = responseText_of big (found r) hs" if "hs \<noteq> []"
    using that by (simp add: report_def)
  show "\<not> truthy (JStr [])" "\<not> truthy JNull" "\<not> truthy JUndefined"
    "\<not> truthy (JBool False)" "\<not> truthy (JNum 0)" "truthy (JArr xs)" by simp_all
  show "displayKey (c # cs) =
          upper_char c # concat (map (\<lambda>d. if is_upper d then [CHR '' '', d] else [d]) cs)"
    if "\<not> is_upper c \<and> c \<noteq> CHR 0x0A \<and> c \<noteq> CHR 0x0D"
    using that by (simp add: displayKey_lower_start)
  show "displayValue big (JArr xs) =
        join '', '' (map (\<lambda>x. if x = JUndefined \<or> x = JNull then [] else js_String big x) xs)"
    by (rule displayValue_array)
  show "displayKey ''owner'' @ '': '' @ displayValue big (JArr [JStr ''A Corp'', JStr ''B Corp''])
        = ''Owner: A Corp, B Corp''"
    unfolding displayKey_owner displayValue_array by simp
qed

theorem formatter_lines_witness:
  "report example_big \<lparr>found = 1, hits = None\<rparr>
     [[(''vesselName'', JStr ''Ever Given''), (''technicalSuperintendentEmailId'', JNull),
       (''owner'', JArr [JStr ''A Corp'', JStr ''B Corp''])]]
   = ''Found 1 results. Showing top 1:\<newline>\<newline>--- Result 1 ---\<newline>''
     @ ''Vessel Name: Ever Given\<newline>Owner: A Corp, B Corp\<newline>\<newline>''"
proof -
  let ?hs = "[[(''vesselName'', JStr ''Ever Given''), (''technicalSuperintendentEmailId'', JNull),
       (''owner'', JArr [JStr ''A Corp'', JStr ''B Corp''])]]"
  note a = formatter_lines [where fnd = 1 and hs = ?hs and r = "\<lparr>found = 1, hits = None\<rparr>"
      and big = example_big]
  have ne: "?hs \<noteq> []" by simp
  have r: "report example_big \<lparr>found = 1, hits = None\<rparr> ?hs = responseText_of example_big 1 ?hs"
    using a [THEN conjunct2, THEN conjunct1, THEN mp, OF ne] by simp
  have t: "responseText_of example_big 1 ?hs =
     ''Found 1 results. Showing top 1:\<newline>\<newline>--- Result 1 ---\<newline>''
     @ ''Vessel Name: Ever Given\<newline>Owner: A Corp, B Corp\<newline>\<newline>''"
    unfolding a [THEN conjunct1]
    by (simp add: show_nat_1 number_text_1 displayKey_vesselName displayKey_owner displayValue_def
        array_join_def)
  show ?thesis unfolding r t ..
qed

text \<open>
  The claim C7 as worded promises a line for every populated field and none for an empty
  value. An empty array is an empty value and prints a line with nothing after the label;
  \<open>isV3: false\<close> and \<open>imo: 0\<close> are populated and print no line.
\<close>

theorem formatter_populated_counterexample:
  "format_doc example_big [] [(''owner'', JArr [])] = ''Owner: \<newline>''
   \<and> format_doc example_big [] [(''isV3'', JBool False), (''imo'', JNum 0)] = []"
  by (simp add: format_doc_eq displayKey_owner displayValue_array)

text \<open>
  C8. The formatter prints a field exactly when its value is truthy, and the falsy values
  are undefined, null, false, 0, NaN and the empty string. A field with a falsy value, such
  as \<open>isV3: false\<close> or \<open>imo: 0\<close>, adds nothing to the text of its record or to the whole
  report: the output is the output of the same record without that field.
\<close>

theorem falsy_fields_omitted:
  "(truthy v \<longleftrightarrow> v \<noteq> JUndefined \<and> v \<noteq> JNull \<and> v \<noteq> JBool False \<and> v \<noteq> JNum 0 \<and> v \<noteq> JNaN
      \<and> v \<noteq> JStr [])
   \<and> (\<not> truthy v \<longrightarrow>
        format_doc big rt (xs @ (key, v) # ys) = format_doc big rt (xs @ ys)
        \<and> responseText_of big fnd (hs1 @ (xs @ (key, v) # ys) # hs2)
            = responseText_of big fnd (hs1 @ (xs @ ys) # hs2))
   \<and> format_doc big rt (xs @ (key, JBool False) # ys) = format_doc big rt (xs @ ys)
   \<and> format_doc big rt (xs @ (key, JNum 0) # ys) = format_doc big rt (xs @ ys)"
  using truthy_iff [of v] format_doc_falsy [of v big rt xs key ys]
    responseText_falsy [of v big fnd hs1 xs key ys hs2]
    format_doc_falsy [of "JBool False" big rt xs key ys]
    format_doc_falsy [of "JNum 0" big rt xs key ys]
  by simp

theorem falsy_fields_omitted_witness:
  "responseText_of example_big 1
     [[(''vesselName'', JStr ''X''), (''isV3'', JBool False), (''imo'', JNum 0)]]
   = responseText_of example_big 1 [[(''vesselName'', JStr ''X'')]]
   \<and> format_doc example_big []
       [(''vesselName'', JStr ''X''), (''isV3'', JBool False), (''imo'', JNum 0)]
     = ''Vessel Name: X\<newline>''"
proof -
  note a = falsy_fields_omitted
    [where v = "JBool False" and xs = "[(''vesselName'', JStr ''X'')]" and key = "''isV3''"
       and ys = "[(''imo'', JNum 0)]" and fnd = 1 and ?hs1.0 = "[]" and ?hs2.0 = "[]"
       and rt = "[]" and big = example_big]
  note b = falsy_fields_omitted
    [where v = "JNum 0" and rt = "[]" and xs = "[(''vesselName'', JStr ''X'')]" and key = "''imo''"
       and ys = "[]" and fnd = 1 and ?hs1.0 = "[]" and ?hs2.0 = "[]" and big = example_big]
  have f1: "\<not> truthy (JBool False)" and f2: "\<not> truthy (JNum 0)" by simp_all
  have 1: "responseText_of example_big 1
             [[(''vesselName'', JStr ''X''), (''isV3'', JBool False), (''imo'', JNum 0)]]
        = responseText_of example_big 1 [[(''vesselName'', JStr ''X''), (''imo'', JNum 0)]]"
    using a [THEN conjunct2, THEN conjunct1, THEN mp, OF f1, THEN conjunct2] by simp
  have 2: "responseText_of example_big 1 [[(''vesselName'', JStr ''X''), (''imo'', JNum 0)]]
        = responseText_of example_big 1 [[(''vesselName'', JStr ''X'')]]"
    using b [THEN conjunct2, THEN conjunct1, THEN mp, OF f2, THEN conjunct2] by simp
  have 3: "format_doc example_big []
             [(''vesselName'', JStr ''X''), (''isV3'', JBool False), (''imo'', JNum 0)]
        = format_doc example_big [] [(''vesselName'', JStr ''X''), (''imo'', JNum 0)]"
    using a [THEN conjunct2, THEN conjunct1, THEN mp, OF f1, THEN conjunct1] by simp
  have 4: "format_doc example_big [] [(''vesselName'', JStr ''X''), (''imo'', JNum 0)]
        = format_doc example_big [] [(''vesselName'', JStr ''X'')]"
    using b [THEN conjunct2, THEN conjunct1, THEN mp, OF f2, THEN conjunct1] by simp
  have 5: "format_doc example_big [] [(''vesselName'', JStr ''X'')] = ''Vessel Name: X\<newline>''"
    by (simp add: format_doc_eq displayKey_vesselName displayValue_def)
  from 1 2 3 4 5 show ?thesis by simp
qed


section \<open>Claims about the tool as a whole\<close>


lemma lookup_validation:
  "activeQueries args = [] \<Longrightarrow>
     vessel_lookup big pp cfg backend b args =
       \<lparr>content_text =
          ''Error: Please provide at least one of name_query, vessel_query, or email_query.'',
        trace = []\<rparr>"
  by (simp add: vessel_lookup_def Let_def)

lemma lookup_no_credentials:
  "activeQueries args \<noteq> [] \<Longrightarrow> credentials_missing cfg \<Longrightarrow>
     vessel_lookup big pp cfg backend b args =
       \<lparr>content_text = ''Error: Typesense credentials not configured.'', trace = []\<rparr>"
  by (simp add: vessel_lookup_def Let_def)












text \<open>
  C6, as the code has it. An absent credential makes \<open>credentials_missing\<close> true, and
  with credentials missing no call is made at all: the client is not constructed and no
  search runs. If the request has an active query the result is the text
  \<open>Error: Typesense credentials not configured.\<close>; if it has none, the check for a
  query comes first and the result is the text that asks for one.
\<close>

theorem missing_credentials_rejected:
  "(host cfg = None \<or> port cfg = None \<or> protocol cfg = None \<or> apiKey cfg = None
      \<longrightarrow> credentials_missing cfg)
   \<and> (credentials_missing cfg \<longrightarrow>
        trace (vessel_lookup big pp cfg backend b args) = []
        \<and> (activeQueries args \<noteq> [] \<longrightarrow>
             vessel_lookup big pp cfg backend b args =
               \<lparr>content_text = ''Error: Typesense credentials not configured.'', trace = []\<rparr>)
        \<and> (activeQueries args = [] \<longrightarrow>
             vessel_lookup big pp cfg backend b args =
               \<lparr>content_text =
                  ''Error: Please provide at least one of name_query, vessel_query, or email_query.'',
                trace = []\<rparr>))"
proof (intro conjI impI)
  show "credentials_missing cfg"
    if "host cfg = None \<or> port cfg = None \<or> protocol cfg = None \<or> apiKey cfg = None"
    using that by (auto simp: credentials_missing_def)
  show "trace (vessel_lookup big pp cfg backend b args) = []" if "credentials_missing cfg"
    using that lookup_validation [of args big pp cfg backend b]
      lookup_no_credentials [of args cfg big pp backend b]
    by (cases "activeQueries args = []") simp_all
  show "vessel_lookup big pp cfg backend b args =
               \<lparr>content_text = ''Error: Typesense credentials not configured.'', trace = []\<rparr>"
    if "credentials_missing cfg" "activeQueries args \<noteq> []"
    using that lookup_no_credentials [of args cfg big pp backend b] by simp
  show "vessel_lookup big pp cfg backend b args =
               \<lparr>content_text =
                  ''Error: Please provide at least one of name_query, vessel_query, or email_query.'',
                trace = []\<rparr>"
    if "credentials_missing cfg" "activeQueries args = []"
    using that lookup_validation [of args big pp cfg backend b] by simp
qed

theorem missing_credentials_rejected_witness:
  "get_vessel_personnel_info example_big
     \<lparr>host = Some ''localhost'', port = Some 8108, protocol = Some ''http'', apiKey = None\<rparr>
     canned_backend
     [Inr \<lparr>found = 1, hits = Some [[(''vesselName'', JStr ''Ever Given'')]]\<rparr>]
     \<lparr>name_query = None, vessel_query = Some ''Ever Given'', email_query = None\<rparr>
   = \<lparr>content_text = ''Error: Typesense credentials not configured.'', trace = []\<rparr>"
proof -
  let ?cfg = "\<lparr>host = Some ''localhost'', port = Some 8108, protocol = Some ''http'',
                apiKey = None\<rparr>"
  let ?args = "\<lparr>name_query = None, vessel_query = Some ''Ever Given'', email_query = None\<rparr>"
  note a = missing_credentials_rejected [where cfg = ?cfg and args = ?args and pp = 250
      and big = example_big
      and backend = canned_backend
      and b = "[Inr \<lparr>found = 1, hits = Some [[(''vesselName'', JStr ''Ever Given'')]]\<rparr>]"]
  have k: "host ?cfg = None \<or> port ?cfg = None \<or> protocol ?cfg = None \<or> apiKey ?cfg = None"
    by simp
  have m: "credentials_missing ?cfg" using a [THEN conjunct1, THEN mp, OF k] .
  have ne: "activeQueries ?args \<noteq> []" by (simp add: active_vessel_only)
  show ?thesis
    unfolding get_vessel_personnel_info_def
    using a [THEN conjunct2, THEN mp, OF m, THEN conjunct2, THEN conjunct1, THEN mp, OF ne] .
qed


text \<open>
  The claim C6 as worded promises the configuration error for every call without
  credentials. A call with no query slot and no credentials gets the validation message.
\<close>

theorem missing_credentials_counterexample:
  "credentials_missing \<lparr>host = None, port = None, protocol = None, apiKey = None\<rparr>
   \<and> get_vessel_personnel_info example_big
       \<lparr>host = None, port = None, protocol = None, apiKey = None\<rparr> canned_backend []
       \<lparr>name_query = None, vessel_query = None, email_query = None\<rparr>
     = \<lparr>content_text =
          ''Error: Please provide at least one of name_query, vessel_query, or email_query.'',
        trace = []\<rparr>
   \<and> content_text (get_vessel_personnel_info example_big
       \<lparr>host = None, port = None, protocol = None, apiKey = None\<rparr> canned_backend []
       \<lparr>name_query = None, vessel_query = None, email_query = None\<rparr>)
     \<noteq> ''Error: Typesense credentials not configured.''"
proof -
  have e: "activeQueries \<lparr>name_query = None, vessel_query = None, email_query = None\<rparr> = []"
    by (simp add: activeQueries_eq)
  show ?thesis
    unfolding get_vessel_personnel_info_def lookup_validation [OF e]
    by (simp add: credentials_missing_def)
qed

end
